theory Spec2Isabelle
  imports Main "HOL-Library.Sublist" "HOL-Library.Word"
begin

section \<open>Data model of main.go\<close>

text \<open>
  Go strings are byte sequences, as HOL's \<open>string\<close> is. A Go \<open>error\<close> value is
  modelled by the message that \<open>%v\<close> prints for it. The field \<open>Depth\<close> is a Go
  \<open>int\<close>; the program only ever adds one to a depth that is at most \<open>MaxDepth\<close>, so
  no wrap-around can occur and \<open>int\<close> is exact.
\<close>

type_synonym byte = "8 word"

datatype error = Err string

record ImageURL =
  URL :: string
  Depth :: int

definition MaxDepth :: int where
  "MaxDepth = 3"

definition MaxWorkers :: nat where
  "MaxWorkers = 10"

definition DownloadDir :: string where
  "DownloadDir = ''images''"

text \<open>Capacity of \<open>urlChan\<close>: \<open>make(chan ImageURL, 100)\<close> in \<open>NewCrawler\<close>.\<close>

definition ChanCap :: nat where
  "ChanCap = 100"


section \<open>\<open>isImageURL\<close>: the suffix classifier\<close>

text \<open>
  The regular expressions the program needs: literal strings, concatenation, alternation
  and the end-of-text assertion \<open>$\<close> (no multi-line flag is set, so \<open>$\<close> holds at the end
  of the text only). \<open>rmatch r s\<close> lists what is left of \<open>s\<close> after each way of matching
  \<open>r\<close> against a prefix of \<open>s\<close>; \<open>MatchString\<close> is Go's unanchored search: the
  expression may start to match at any position of the text.
\<close>

datatype regex = Str string | Seq regex regex | Alt regex regex | EndText

fun rmatch :: "regex \<Rightarrow> string \<Rightarrow> string list" where
  "rmatch (Str p) s = (if prefix p s then [drop (length p) s] else [])"
| "rmatch (Seq a b) s = concat (map (rmatch b) (rmatch a s))"
| "rmatch (Alt a b) s = rmatch a s @ rmatch b s"
| "rmatch EndText s = (if s = [] then [[]] else [])"

definition MatchString :: "regex \<Rightarrow> string \<Rightarrow> bool" where
  "MatchString r s = list_ex (\<lambda>t. rmatch r t \<noteq> []) (suffixes s)"

text \<open>The pattern \<^verbatim>\<open>\.(jpg|jpeg|png|gif|bmp)$\<close>.\<close>

definition imgRegex :: regex where
  "imgRegex =
     Seq (Str ''.'')
       (Seq (Alt (Str ''jpg'') (Alt (Str ''jpeg'') (Alt (Str ''png'')
              (Alt (Str ''gif'') (Str ''bmp'')))))
            EndText)"

definition isImageURL :: "string \<Rightarrow> bool" where
  "isImageURL url = MatchString imgRegex url"


section \<open>\<open>parseHTML\<close>: link and image extraction\<close>

text \<open>
  The tokenizer of \<open>golang.org/x/net/html\<close> is an external library. It is taken as the
  sequence of tokens that successive calls of \<open>Next\<close>/\<open>Token\<close> deliver; once that sequence is
  used up, \<open>Next\<close> answers \<open>ErrorToken\<close> (end of input).
\<close>

datatype TokenType =
  ErrorToken | TextToken | StartTagToken | EndTagToken | SelfClosingTagToken
  | CommentToken | DoctypeToken

record Attribute =
  Namespace :: string
  Key :: string
  Val :: string

record Token =
  Type :: TokenType
  Data :: string
  Attr :: "Attribute list"

text \<open>The loop over the attributes of an \<open>a\<close> tag (lines 97 to 101).\<close>

fun href_loop :: "string list \<Rightarrow> Attribute list \<Rightarrow> string list" where
  "href_loop links [] = links"
| "href_loop links (attr # attrs) =
     href_loop (if Key attr = ''href'' then links @ [Val attr] else links) attrs"

text \<open>The loop over the attributes of an \<open>img\<close> tag (lines 103 to 107).\<close>

fun src_loop :: "string list \<Rightarrow> Attribute list \<Rightarrow> string list" where
  "src_loop images [] = images"
| "src_loop images (attr # attrs) =
     src_loop (if Key attr = ''src'' \<and> isImageURL (Val attr) then images @ [Val attr]
               else images) attrs"

text \<open>The token loop (lines 88 to 110), with the two result slices as accumulators.\<close>

fun token_loop :: "Token list \<Rightarrow> string list \<Rightarrow> string list \<Rightarrow> string list \<times> string list" where
  "token_loop [] links images = (links, images)"
| "token_loop (token # rest) links images =
     (if Type token = ErrorToken then (links, images)
      else if Type token = StartTagToken \<or> Type token = SelfClosingTagToken then
        (if Data token = ''a'' then token_loop rest (href_loop links (Attr token)) images
         else if Data token = ''img'' then token_loop rest links (src_loop images (Attr token))
         else token_loop rest links images)
      else token_loop rest links images)"

text \<open>
  \<open>parseHTML\<close> over a reader of type \<open>'r\<close>; \<open>tokenizer\<close> stands for \<open>html.NewTokenizer\<close>.
  The parameters \<open>baseURL\<close> and \<open>depth\<close> are part of the signature and unused by the body.
\<close>

definition parseHTML ::
  "('r \<Rightarrow> Token list) \<Rightarrow> 'r \<Rightarrow> string \<Rightarrow> int \<Rightarrow> string list \<times> string list" where
  "parseHTML tokenizer body baseURL depth = token_loop (tokenizer body) [] []"

section \<open>The outside world: network, file system, console\<close>

text \<open>
  A response body is a stream of bytes that either ends (\<open>io.EOF\<close>) or breaks off with
  a read error after the bytes delivered so far.
\<close>

record Body =
  content :: "byte list"
  read_err :: "error option"

text \<open>
  What the program can observe and change outside itself: the regular files (path to
  content), the directories, the lines written to standard output, and the URLs requested
  through \<open>client.Get\<close>, in order.
\<close>

record World =
  files :: "string \<rightharpoonup> byte list"
  dirs :: "string set"
  stdout :: "string list"
  requests :: "string list"

text \<open>
  The behaviour of the external collaborators, which may depend on everything that
  happened before: the answer of \<open>client.Get\<close> (an error, or a response with its body), the
  HTML tokenizer, and the faults of the operating system: \<open>os.MkdirAll\<close> and \<open>os.Create\<close>
  failing, and a write to a file failing after a number of bytes has been accepted.
\<close>

record Env =
  Get :: "World \<Rightarrow> string \<Rightarrow> error + Body"
  tokenizer :: "Body \<Rightarrow> Token list"
  mkdir_fault :: "World \<Rightarrow> string \<Rightarrow> error option"
  create_fault :: "World \<Rightarrow> string \<Rightarrow> error option"
  write_fault :: "World \<Rightarrow> string \<Rightarrow> (nat \<times> error) option"

fun message :: "error \<Rightarrow> string" where
  "message (Err m) = m"

definition newline :: string where
  "newline = [CHR 0x0A]"

text \<open>\<open>os.MkdirAll\<close>: creates the directory unless it fails; an existing directory stays.\<close>

definition MkdirAll :: "Env \<Rightarrow> World \<Rightarrow> string \<Rightarrow> World \<times> error option" where
  "MkdirAll env w path =
     (case mkdir_fault env w path of
        Some e \<Rightarrow> (w, Some e)
      | None \<Rightarrow> (w\<lparr>dirs := insert path (dirs w)\<rparr>, None))"

text \<open>\<open>os.Create\<close>: creates the file, or truncates it when it exists, unless it fails.\<close>

definition Create :: "Env \<Rightarrow> World \<Rightarrow> string \<Rightarrow> World \<times> error option" where
  "Create env w path =
     (case create_fault env w path of
        Some e \<Rightarrow> (w, Some e)
      | None \<Rightarrow> (w\<lparr>files := (files w)(path \<mapsto> [])\<rparr>, None))"

text \<open>
  \<open>io.Copy\<close> into the file just created: the bytes of the body are appended in order until
  the body ends, the body's read fails, or a write fails; the bytes accepted before a
  failure stay in the file.
\<close>

definition Copy :: "Env \<Rightarrow> World \<Rightarrow> string \<Rightarrow> Body \<Rightarrow> World \<times> error option" where
  "Copy env w path body =
     (case write_fault env w path of
        Some (k, e) \<Rightarrow>
          if k < length (content body)
          then (w\<lparr>files := (files w)(path \<mapsto> take k (content body))\<rparr>, Some e)
          else (w\<lparr>files := (files w)(path \<mapsto> content body)\<rparr>, read_err body)
      | None \<Rightarrow> (w\<lparr>files := (files w)(path \<mapsto> content body)\<rparr>, read_err body))"

text \<open>
  \<open>filepath.Base\<close> (with \<open>/\<close> as the separator): the empty path gives \<open>.\<close>; trailing
  separators are dropped; what follows the last separator is returned, and \<open>/\<close> when
  nothing is left.
\<close>

definition Base :: "string \<Rightarrow> string" where
  "Base path =
     (if path = [] then ''.''
      else let p = rev (dropWhile (\<lambda>c. c = CHR ''/'') (rev path));
               e = rev (takeWhile (\<lambda>c. c \<noteq> CHR ''/'') (rev p))
           in if e = [] then ''/'' else e)"

text \<open>
  \<open>filepath.Join\<close> of a directory name (one clean relative element, as \<open>DownloadDir\<close> is)
  and a result of \<open>Base\<close>: the two are joined by the separator and the path is cleaned, which
  removes a final \<open>.\<close> or separator and resolves a final \<open>..\<close>.
\<close>

definition Join :: "string \<Rightarrow> string \<Rightarrow> string" where
  "Join dir elem =
     (if elem = ''.'' \<or> elem = ''/'' then dir
      else if elem = ''..'' then ''.''
      else dir @ ''/'' @ elem)"

definition getFilenameFromURL :: "string \<Rightarrow> string" where
  "getFilenameFromURL url = Base url"


section \<open>\<open>downloadImage\<close>\<close>

text \<open>The result is the world after the call and the returned \<open>error\<close> (\<open>None\<close> for \<open>nil\<close>).\<close>

definition downloadImage :: "Env \<Rightarrow> World \<Rightarrow> string \<Rightarrow> World \<times> error option" where
  "downloadImage env w imgURL =
     (let w1 = w\<lparr>requests := requests w @ [imgURL]\<rparr> in
      case Get env w imgURL of
        Inl err \<Rightarrow> (w1, Some err)
      | Inr body \<Rightarrow>
          (case MkdirAll env w1 DownloadDir of
             (w2, Some err) \<Rightarrow> (w2, Some err)
           | (w2, None) \<Rightarrow>
               let filename = Join DownloadDir (getFilenameFromURL imgURL) in
               (case Create env w2 filename of
                  (w3, Some err) \<Rightarrow> (w3, Some err)
                | (w3, None) \<Rightarrow>
                    (case Copy env w3 filename body of
                       (w4, Some err) \<Rightarrow> (w4, Some err)
                     | (w4, None) \<Rightarrow>
                         (w4\<lparr>stdout := stdout w4 @ [''Downloaded: '' @ filename @ newline]\<rparr>,
                          None)))))"


section \<open>The crawler and its goroutines\<close>

text \<open>
  The fields of \<open>Crawler\<close> that the goroutines share: the visited map, its mutex (held or
  not), the counter of the wait group, and the channel: its buffered items, oldest first,
  and whether it has been closed. The HTTP client is part of \<open>Env\<close>.
\<close>

record Crawler =
  visited :: "string \<rightharpoonup> bool"
  visitedLock :: bool
  wg :: int
  urlChan :: "ImageURL list"
  closed :: bool

definition NewCrawler :: Crawler where
  "NewCrawler =
     \<lparr>visited = Map.empty, visitedLock = False, wg = 0, urlChan = [], closed = False\<rparr>"

text \<open>Reading a Go map of booleans: a missing key reads as \<open>false\<close>.\<close>

definition visited_get :: "(string \<rightharpoonup> bool) \<Rightarrow> string \<Rightarrow> bool" where
  "visited_get m k = (case m k of None \<Rightarrow> False | Some b \<Rightarrow> b)"

text \<open>
  Where a worker goroutine stands. It can be suspended, and other goroutines can run, at
  the operations on shared data: the receive of the \<open>range\<close> loop, \<open>Lock\<close>, the read and the
  write of the visited map, \<open>Unlock\<close>, and each send. \<open>Sending imgURL links\<close> is the loop of
  lines 147 to 149 with \<open>links\<close> still to send; \<open>Exited\<close> is after the deferred \<open>wg.Done\<close>.
  A send on a closed channel panics.
\<close>

datatype WorkerPC =
  NotStarted
  | Receiving
  | Locking ImageURL
  | Checking ImageURL
  | Marking ImageURL
  | UnlockSkip
  | UnlockGo ImageURL
  | Fetching ImageURL
  | Sending ImageURL "string list"
  | Panicked
  | Exited

text \<open>The loop over the images of a page (lines 141 to 145).\<close>

fun download_loop :: "Env \<Rightarrow> World \<Rightarrow> string list \<Rightarrow> World" where
  "download_loop env w [] = w"
| "download_loop env w (img # images) =
     (case downloadImage env w img of
        (w', Some err) \<Rightarrow>
          download_loop env
            (w'\<lparr>stdout := stdout w' @
               [''Error downloading '' @ img @ '': '' @ message err @ newline]\<rparr>) images
      | (w', None) \<Rightarrow> download_loop env w' images)"

text \<open>One pass through the body of that loop (lines 142 to 144).\<close>

definition download_one :: "Env \<Rightarrow> World \<Rightarrow> string \<Rightarrow> World" where
  "download_one env w img =
     (case downloadImage env w img of
        (w', Some err) \<Rightarrow>
          w'\<lparr>stdout := stdout w' @
               [''Error downloading '' @ img @ '': '' @ message err @ newline]\<rparr>
      | (w', None) \<Rightarrow> w')"

text \<open>
  Lines 131 to 145: fetch the page, and on success parse it and download its images. The
  result is the world afterwards and where the worker goes on: back to the receive after
  a fetch error, to the sends of the links otherwise.
\<close>

definition fetch_page :: "Env \<Rightarrow> World \<Rightarrow> ImageURL \<Rightarrow> World \<times> WorkerPC" where
  "fetch_page env w imgURL =
     (let w1 = w\<lparr>requests := requests w @ [URL imgURL]\<rparr> in
      case Get env w (URL imgURL) of
        Inl err \<Rightarrow>
          (w1\<lparr>stdout := stdout w1 @
             [''Error fetching '' @ URL imgURL @ '': '' @ message err @ newline]\<rparr>,
           Receiving)
      | Inr body \<Rightarrow>
          (case parseHTML (tokenizer env) body (URL imgURL) (Depth imgURL) of
             (links, images) \<Rightarrow> (download_loop env w1 images, Sending imgURL links)))"

text \<open>
  One step of a worker (lines 115 to 151): \<open>None\<close> when the worker is blocked (receive on
  an empty open channel, \<open>Lock\<close> on the held mutex, send on a full channel) or has ended.
\<close>

fun worker_step ::
  "Env \<Rightarrow> Crawler \<times> World \<Rightarrow> WorkerPC \<Rightarrow> ((Crawler \<times> World) \<times> WorkerPC) option" where
  "worker_step env (c, w) NotStarted = None"
| "worker_step env (c, w) Receiving =
     (case urlChan c of
        [] \<Rightarrow> if closed c then Some ((c\<lparr>wg := wg c - 1\<rparr>, w), Exited) else None
      | imgURL # rest \<Rightarrow>
          if Depth imgURL > MaxDepth then Some ((c\<lparr>urlChan := rest\<rparr>, w), Receiving)
          else Some ((c\<lparr>urlChan := rest\<rparr>, w), Locking imgURL))"
| "worker_step env (c, w) (Locking imgURL) =
     (if visitedLock c then None else Some ((c\<lparr>visitedLock := True\<rparr>, w), Checking imgURL))"
| "worker_step env (c, w) (Checking imgURL) =
     (if visited_get (visited c) (URL imgURL) then Some ((c, w), UnlockSkip)
      else Some ((c, w), Marking imgURL))"
| "worker_step env (c, w) (Marking imgURL) =
     Some ((c\<lparr>visited := (visited c)(URL imgURL \<mapsto> True)\<rparr>, w), UnlockGo imgURL)"
| "worker_step env (c, w) UnlockSkip = Some ((c\<lparr>visitedLock := False\<rparr>, w), Receiving)"
| "worker_step env (c, w) (UnlockGo imgURL) =
     Some ((c\<lparr>visitedLock := False\<rparr>, w), Fetching imgURL)"
| "worker_step env (c, w) (Fetching imgURL) =
     (case fetch_page env w imgURL of (w', pc) \<Rightarrow> Some ((c, w'), pc))"
| "worker_step env (c, w) (Sending imgURL []) = Some ((c, w), Receiving)"
| "worker_step env (c, w) (Sending imgURL (link # links)) =
     (if closed c then Some ((c, w), Panicked)
      else if length (urlChan c) < ChanCap
      then Some ((c\<lparr>urlChan := urlChan c @ [\<lparr>URL = link, Depth = Depth imgURL + 1\<rparr>]\<rparr>, w),
                 Sending imgURL links)
      else None)"
| "worker_step env (c, w) Panicked = None"
| "worker_step env (c, w) Exited = None"

text \<open>
  Where \<open>Start\<close> stands: in its loop with counter \<open>i\<close>, at the send of the seed, in
  \<open>wg.Wait\<close>, at \<open>close\<close>, or returned.
\<close>

datatype MainPC = Spawning nat | Seeding | Waiting | Closing | Returned

record System =
  crawler :: Crawler
  world :: World
  workers :: "nat \<Rightarrow> WorkerPC"
  mainpc :: MainPC

text \<open>
  One step of \<open>Start\<close> (lines 153 to 163): \<open>None\<close> when it is blocked (send on a full
  channel, \<open>Wait\<close> on a counter that is not zero) or has returned.
\<close>

definition Start_step :: "string \<Rightarrow> System \<Rightarrow> System option" where
  "Start_step startURL s =
     (case mainpc s of
        Spawning i \<Rightarrow>
          if i < MaxWorkers
          then Some (s\<lparr>crawler := (crawler s)\<lparr>wg := wg (crawler s) + 1\<rparr>,
                       workers := (workers s)(i := Receiving),
                       mainpc := Spawning (i + 1)\<rparr>)
          else Some (s\<lparr>mainpc := Seeding\<rparr>)
      | Seeding \<Rightarrow>
          if length (urlChan (crawler s)) < ChanCap
          then Some (s\<lparr>crawler := (crawler s)\<lparr>urlChan :=
                          urlChan (crawler s) @ [\<lparr>URL = startURL, Depth = 1\<rparr>]\<rparr>,
                       mainpc := Waiting\<rparr>)
          else None
      | Waiting \<Rightarrow> if wg (crawler s) = 0 then Some (s\<lparr>mainpc := Closing\<rparr>) else None
      | Closing \<Rightarrow> Some (s\<lparr>crawler := (crawler s)\<lparr>closed := True\<rparr>, mainpc := Returned\<rparr>)
      | Returned \<Rightarrow> None)"

text \<open>
  The goroutines run interleaved. A schedule lists which goroutine takes the next step;
  choosing one that is blocked or has ended leaves the state as it is.
\<close>

datatype Actor = Main | Worker nat

fun sys_step :: "Env \<Rightarrow> string \<Rightarrow> Actor \<Rightarrow> System \<Rightarrow> System option" where
  "sys_step env startURL Main s = Start_step startURL s"
| "sys_step env startURL (Worker i) s =
     (if i < MaxWorkers then
        (case worker_step env (crawler s, world s) (workers s i) of
           None \<Rightarrow> None
         | Some ((c, w), pc) \<Rightarrow>
             Some (s\<lparr>crawler := c, world := w, workers := (workers s)(i := pc)\<rparr>))
      else None)"

definition next_state :: "Env \<Rightarrow> string \<Rightarrow> Actor \<Rightarrow> System \<Rightarrow> System" where
  "next_state env startURL a s = (case sys_step env startURL a s of None \<Rightarrow> s | Some s' \<Rightarrow> s')"

fun run :: "Env \<Rightarrow> string \<Rightarrow> Actor list \<Rightarrow> System \<Rightarrow> System" where
  "run env startURL [] s = s"
| "run env startURL (a # sched) s = run env startURL sched (next_state env startURL a s)"

text \<open>The state in which \<open>main\<close> calls \<open>Start\<close> on the new crawler.\<close>

definition init :: "World \<Rightarrow> System" where
  "init w0 = \<lparr>crawler = NewCrawler, world = w0, workers = (\<lambda>_. NotStarted),
              mainpc = Spawning 0\<rparr>"

text \<open>A goroutine is enabled when it can take a step.\<close>

definition enabled :: "Env \<Rightarrow> string \<Rightarrow> Actor \<Rightarrow> System \<Rightarrow> bool" where
  "enabled env startURL a s = (sys_step env startURL a s \<noteq> None)"

text \<open>A state in which \<open>Start\<close> and all the workers are blocked.\<close>

definition blocked :: "Env \<Rightarrow> string \<Rightarrow> System \<Rightarrow> bool" where
  "blocked env startURL s =
     list_all (\<lambda>a. sys_step env startURL a s = None) (Main # map Worker [0..<MaxWorkers])"

text \<open>
  The outcome of the visited check (line 124) that a step performs, if it performs one:
  the URL, and whether the worker goes on to process it.
\<close>

fun check_event :: "Actor \<Rightarrow> System \<Rightarrow> (string \<times> bool) list" where
  "check_event Main s = []"
| "check_event (Worker i) s =
     (if i < MaxWorkers then
        (case workers s i of
           Checking imgURL \<Rightarrow>
             [(URL imgURL, \<not> visited_get (visited (crawler s)) (URL imgURL))]
         | _ \<Rightarrow> [])
      else [])"




definition in_critical :: "WorkerPC \<Rightarrow> bool" where
  "in_critical pc =
     (case pc of Checking _ \<Rightarrow> True | Marking _ \<Rightarrow> True | UnlockSkip \<Rightarrow> True
      | UnlockGo _ \<Rightarrow> True | _ \<Rightarrow> False)"


text \<open>What the specification says extraction yields, token by token.\<close>

definition is_open_tag :: "string \<Rightarrow> Token \<Rightarrow> bool" where
  "is_open_tag name t =
     ((Type t = StartTagToken \<or> Type t = SelfClosingTagToken) \<and> Data t = name)"

definition tag_links :: "Token \<Rightarrow> string list" where
  "tag_links t =
     (if is_open_tag ''a'' t then map Val (filter (\<lambda>a. Key a = ''href'') (Attr t)) else [])"

definition tag_images :: "Token \<Rightarrow> string list" where
  "tag_images t =
     (if is_open_tag ''img'' t
      then map Val (filter (\<lambda>a. Key a = ''src'' \<and> isImageURL (Val a)) (Attr t)) else [])"

definition before_error :: "Token list \<Rightarrow> Token list" where
  "before_error ts = takeWhile (\<lambda>t. Type t \<noteq> ErrorToken) ts"


section \<open>Invariants of the running system\<close>

text \<open>
  What holds in every state that \<open>Start\<close> and the workers can reach: the channel is open,
  no worker has left its loop, and the counter of the wait group is the number of workers
  started so far.
\<close>

definition start_inv :: "System \<Rightarrow> bool" where
  "start_inv s \<longleftrightarrow>
     \<not> closed (crawler s) \<and> (\<forall>i. workers s i \<noteq> Exited) \<and>
     (case mainpc s of
        Spawning i \<Rightarrow> wg (crawler s) = int i \<and> i \<le> MaxWorkers
      | Seeding \<Rightarrow> wg (crawler s) = int MaxWorkers
      | Waiting \<Rightarrow> wg (crawler s) = int MaxWorkers
      | Closing \<Rightarrow> False
      | Returned \<Rightarrow> False)"






section \<open>A concrete site and run\<close>

text \<open>
  A site on which every request succeeds with an empty page and nothing fails, an
  empty world, the seed URL of \<open>main\<close>, and a schedule: \<open>Start\<close> starts its ten workers
  and sends the seed, then the first worker receives it and passes the visited check.
\<close>

definition quiet_env :: Env where
  "quiet_env =
     \<lparr>Get = (\<lambda>w u. Inr \<lparr>content = [], read_err = None\<rparr>), tokenizer = (\<lambda>b. []),
      mkdir_fault = (\<lambda>w p. None), create_fault = (\<lambda>w p. None),
      write_fault = (\<lambda>w p. None)\<rparr>"

definition empty_world :: World where
  "empty_world = \<lparr>files = Map.empty, dirs = {}, stdout = [], requests = []\<rparr>"

definition startURL0 :: string where
  "startURL0 = ''https://example.com''"



text \<open>
  A page at depth \<open>MaxDepth\<close> with one link and the same relative image twice, on a site
  where only that page can be fetched; and states in which a worker is about to receive an
  item or to send a link.
\<close>

definition over_depth_state :: System where
  "over_depth_state =
     \<lparr>crawler = NewCrawler\<lparr>wg := 10, urlChan := [\<lparr>URL = ''https://example.com/deep'', Depth = 4\<rparr>]\<rparr>,
      world = empty_world, workers = (\<lambda>_. Receiving), mainpc = Waiting\<rparr>"

definition page_tokens :: "Token list" where
  "page_tokens =
     [\<lparr>Type = StartTagToken, Data = ''a'',
        Attr = [\<lparr>Namespace = [], Key = ''href'', Val = ''https://example.com/page2''\<rparr>]\<rparr>,
      \<lparr>Type = SelfClosingTagToken, Data = ''img'',
        Attr = [\<lparr>Namespace = [], Key = ''src'', Val = ''a.png''\<rparr>]\<rparr>,
      \<lparr>Type = SelfClosingTagToken, Data = ''img'',
        Attr = [\<lparr>Namespace = [], Key = ''src'', Val = ''a.png''\<rparr>]\<rparr>]"

definition page_env :: Env where
  "page_env =
     \<lparr>Get = (\<lambda>w u. if u = ''https://example.com/page1''
                      then Inr \<lparr>content = [], read_err = None\<rparr>
                      else Inl (Err ''unsupported protocol scheme'')),
      tokenizer = (\<lambda>b. page_tokens),
      mkdir_fault = (\<lambda>w p. None), create_fault = (\<lambda>w p. None),
      write_fault = (\<lambda>w p. None)\<rparr>"

definition page_item :: ImageURL where
  "page_item = \<lparr>URL = ''https://example.com/page1'', Depth = 3\<rparr>"

definition sending_state :: System where
  "sending_state =
     \<lparr>crawler = NewCrawler\<lparr>wg := 10\<rparr>, world = empty_world,
      workers = (\<lambda>_. Sending page_item [''https://example.com/page2'']), mainpc = Waiting\<rparr>"

definition failed_item :: ImageURL where
  "failed_item = \<lparr>URL = ''https://example.com/page2'', Depth = 2\<rparr>"


text \<open>
  An image of three bytes, a world in which a file of that name already exists, and five
  environments: one where nothing fails, one where the output directory cannot be
  created, one where the disk accepts a single byte, one where no file can be created, and
  one where no request succeeds.
\<close>

definition photo_url :: string where
  "photo_url = ''https://example.com/pics/a.png''"

definition photo_body :: Body where
  "photo_body = \<lparr>content = [1, 2, 3], read_err = None\<rparr>"

definition old_world :: World where
  "old_world =
     \<lparr>files = [''images/a.png'' \<mapsto> [9, 9, 9, 9]], dirs = {''images''}, stdout = [],
      requests = []\<rparr>"

definition photo_env :: Env where
  "photo_env =
     \<lparr>Get = (\<lambda>w u. Inr photo_body), tokenizer = (\<lambda>b. []),
      mkdir_fault = (\<lambda>w p. None), create_fault = (\<lambda>w p. None),
      write_fault = (\<lambda>w p. None)\<rparr>"


definition full_disk_env :: Env where
  "full_disk_env =
     photo_env\<lparr>write_fault := (\<lambda>w p. Some (1, Err ''no space left on device''))\<rparr>"





text \<open>
  The same page with an absolute image URL that can be fetched, a state in which a worker
  is about to fetch a given item, and a state whose channel is full.
\<close>

definition gallery_tokens :: "Token list" where
  "gallery_tokens =
     [\<lparr>Type = StartTagToken, Data = ''a'',
        Attr = [\<lparr>Namespace = [], Key = ''href'', Val = ''https://example.com/page2''\<rparr>]\<rparr>,
      \<lparr>Type = SelfClosingTagToken, Data = ''img'',
        Attr = [\<lparr>Namespace = [], Key = ''src'', Val = photo_url\<rparr>]\<rparr>,
      \<lparr>Type = SelfClosingTagToken, Data = ''img'',
        Attr = [\<lparr>Namespace = [], Key = ''src'', Val = photo_url\<rparr>]\<rparr>]"

definition gallery_env :: Env where
  "gallery_env =
     \<lparr>Get = (\<lambda>w u. if u = ''https://example.com/page1''
                      then Inr \<lparr>content = [], read_err = None\<rparr>
                      else Inr photo_body),
      tokenizer = (\<lambda>b. gallery_tokens),
      mkdir_fault = (\<lambda>w p. None), create_fault = (\<lambda>w p. None),
      write_fault = (\<lambda>w p. None)\<rparr>"

definition gallery_state :: System where
  "gallery_state =
     \<lparr>crawler = \<lparr>visited = [photo_url \<mapsto> True], visitedLock = False, wg = 10,
                  urlChan = [page_item], closed = False\<rparr>,
      world = \<lparr>files = Map.empty, dirs = {}, stdout = [], requests = [photo_url]\<rparr>,
      workers = (\<lambda>_. Receiving), mainpc = Waiting\<rparr>"

definition fetching_at :: "ImageURL \<Rightarrow> System" where
  "fetching_at imgURL =
     \<lparr>crawler = NewCrawler\<lparr>wg := 10\<rparr>, world = empty_world,
      workers = (\<lambda>_. Fetching imgURL), mainpc = Waiting\<rparr>"

definition full_crawler :: Crawler where
  "full_crawler = NewCrawler\<lparr>wg := 10, urlChan := replicate 100 page_item\<rparr>"

definition full_state :: System where
  "full_state =
     \<lparr>crawler = full_crawler, world = empty_world,
      workers = (\<lambda>_. Sending page_item [''https://example.com/page2'']), mainpc = Waiting\<rparr>"


text \<open>
  A site of wide pages: every page carries the same 101 links, the first nine of them to
  nine different pages. In the run \<open>jam_sched\<close>, \<open>Start\<close> starts the workers and sends the
  seed; the first worker processes the seed page and sends 100 of its links, which fills
  the channel; then each of the other nine workers receives one item, processes its page
  and sends one link.
\<close>

definition page :: "nat \<Rightarrow> string" where
  "page j = ''https://example.com/'' @ replicate j (CHR ''x'')"

definition wide_links :: "string list" where
  "wide_links = map page [1..<10] @ replicate 91 (page 1) @ [page 1]"

definition wide_tail :: "string list" where
  "wide_tail = map page [2..<10] @ replicate 91 (page 1) @ [page 1]"

definition link_token :: "string \<Rightarrow> Token" where
  "link_token u =
     \<lparr>Type = StartTagToken, Data = ''a'',
      Attr = [\<lparr>Namespace = [], Key = ''href'', Val = u\<rparr>]\<rparr>"

definition wide_env :: Env where
  "wide_env =
     \<lparr>Get = (\<lambda>w u. Inr \<lparr>content = [], read_err = None\<rparr>),
      tokenizer = (\<lambda>b. map link_token wide_links),
      mkdir_fault = (\<lambda>w p. None), create_fault = (\<lambda>w p. None),
      write_fault = (\<lambda>w p. None)\<rparr>"

definition jam_sched :: "Actor list" where
  "jam_sched =
     replicate 12 Main @ replicate 106 (Worker 0) @
     concat (map (\<lambda>j. replicate 7 (Worker j)) [1..<10])"


section \<open>Properties of the classifier and of extraction\<close>

lemma rmatch_imgRegex:
  "rmatch imgRegex t \<noteq> [] \<longleftrightarrow>
     t = ''.jpg'' \<or> t = ''.jpeg'' \<or> t = ''.png'' \<or> t = ''.gif'' \<or> t = ''.bmp''"
  by (auto simp: imgRegex_def prefix_def)

lemma list_ex_suffixes: "list_ex P (suffixes s) = (\<exists>t. suffix t s \<and> P t)"
  by (simp add: list_ex_iff Bex_def)

lemma ex_suffix_cases:
  "(\<exists>t. suffix t s \<and> (t = a \<or> t = b \<or> t = c \<or> t = d \<or> t = e)) =
     (suffix a s \<or> suffix b s \<or> suffix c s \<or> suffix d s \<or> suffix e s)"
  by blast

lemma MatchString_imgRegex:
  "MatchString imgRegex s \<longleftrightarrow>
     suffix ''.jpg'' s \<or> suffix ''.jpeg'' s \<or> suffix ''.png'' s \<or> suffix ''.gif'' s
       \<or> suffix ''.bmp'' s"
  unfolding MatchString_def list_ex_suffixes rmatch_imgRegex by (rule ex_suffix_cases)

lemma href_loop_eq:
  "href_loop links attrs = links @ map Val (filter (\<lambda>a. Key a = ''href'') attrs)"
  by (induction attrs arbitrary: links) simp_all

lemma src_loop_eq:
  "src_loop images attrs =
     images @ map Val (filter (\<lambda>a. Key a = ''src'' \<and> isImageURL (Val a)) attrs)"
  by (induction attrs arbitrary: images) simp_all

lemma token_loop_eq:
  "token_loop ts links images =
     (links @ concat (map tag_links (before_error ts)),
      images @ concat (map tag_images (before_error ts)))"
proof (induction ts arbitrary: links images)
  case Nil
  show ?case by (simp add: before_error_def)
next
  case (Cons t ts)
  show ?case
  proof (cases "Type t = ErrorToken")
    case True
    then show ?thesis by (simp add: before_error_def)
  next
    case False
    have step: "before_error (t # ts) = t # before_error ts"
      using False by (simp add: before_error_def)
    show ?thesis
      unfolding step
      using False Cons.IH
      by (simp add: tag_links_def tag_images_def is_open_tag_def href_loop_eq src_loop_eq)
  qed
qed

text \<open>
  C5: a string is accepted by the image classifier if and only if it ends with one of
  \<open>.jpg\<close>, \<open>.jpeg\<close>, \<open>.png\<close>, \<open>.gif\<close>, \<open>.bmp\<close> (bytes compared as they are, the suffix at the very
  end of the string); and the images that extraction returns are, tag by tag and in order,
  the \<open>src\<close> values of the \<open>img\<close> tags that the classifier accepts, and nothing else.
\<close>

theorem isImageURL_suffix_classifier:
  "isImageURL s =
     (suffix ''.jpg'' s \<or> suffix ''.jpeg'' s \<or> suffix ''.png'' s \<or> suffix ''.gif'' s
        \<or> suffix ''.bmp'' s) \<and>
   snd (parseHTML tk body baseURL depth) = concat (map tag_images (before_error (tk body)))"
proof -
  have "isImageURL s =
          (suffix ''.jpg'' s \<or> suffix ''.jpeg'' s \<or> suffix ''.png'' s \<or> suffix ''.gif'' s
             \<or> suffix ''.bmp'' s)"
    unfolding isImageURL_def by (rule MatchString_imgRegex)
  moreover have "snd (parseHTML tk body baseURL depth) =
                   concat (map tag_images (before_error (tk body)))"
    by (simp add: parseHTML_def token_loop_eq)
  ultimately show ?thesis by (rule conjI)
qed

text \<open>
  C6: the links that extraction returns are the \<open>href\<close> values of the \<open>a\<close> tags, tag by tag
  and in the order of the document, each value as the tokenizer delivers it; the result
  does not depend on the base URL (nor on the depth); and an error token ends extraction
  with what was collected from the tokens before it: the tokens after it play no part, and
  a pair of sequences is returned in every case.
\<close>

theorem parseHTML_links_as_written:
  "fst (parseHTML tk body baseURL depth) = concat (map tag_links (before_error (tk body))) \<and>
   parseHTML tk body baseURL depth = parseHTML tk body baseURL' depth' \<and>
   parseHTML (\<lambda>_. pre @ t\<lparr>Type := ErrorToken\<rparr> # post) body baseURL depth =
     parseHTML (\<lambda>_. pre) body baseURL depth"
proof -
  have "before_error (pre @ t\<lparr>Type := ErrorToken\<rparr> # post) = before_error pre"
    by (induction pre) (simp_all add: before_error_def)
  then show ?thesis
    by (simp add: parseHTML_def token_loop_eq)
qed


section \<open>\<open>Start\<close> and the end of the crawl\<close>

lemma fetch_page_pc:
  "snd (fetch_page env w imgURL) = Receiving \<or>
   (\<exists>links. snd (fetch_page env w imgURL) = Sending imgURL links)"
  by (simp add: fetch_page_def Let_def split: sum.splits prod.splits)

lemma worker_step_open:
  assumes "worker_step env (c, w) pc = Some ((c', w'), pc')" and "\<not> closed c"
  shows "\<not> closed c' \<and> wg c' = wg c \<and> pc' \<noteq> Exited \<and> pc' \<noteq> Panicked"
proof (cases pc)
  case (Fetching imgURL)
  with assms fetch_page_pc [of env w imgURL] show ?thesis
    by (auto split: prod.splits)
next
  case (Sending imgURL links)
  with assms show ?thesis
    by (cases links) (auto split: if_splits)
qed (use assms in \<open>auto split: list.splits if_splits\<close>)

lemma start_inv_init: "start_inv (init w0)"
  by (simp add: start_inv_def init_def NewCrawler_def)

lemma start_inv_Start_step:
  assumes "start_inv s" and "Start_step u s = Some s'"
  shows "start_inv s'"
  using assms
  by (auto simp: start_inv_def Start_step_def MaxWorkers_def split: MainPC.splits if_splits)

lemma start_inv_worker:
  assumes "start_inv s" and "sys_step env u (Worker i) s = Some s'"
  shows "start_inv s'"
proof -
  from assms(2) obtain c w pc where
    ws: "worker_step env (crawler s, world s) (workers s i) = Some ((c, w), pc)" and
    s': "s' = s\<lparr>crawler := c, world := w, workers := (workers s)(i := pc)\<rparr>"
    by (auto split: if_splits option.splits)
  from assms(1) have "\<not> closed (crawler s)" by (simp add: start_inv_def)
  from worker_step_open [OF ws this]
  have "\<not> closed c" "wg c = wg (crawler s)" "pc \<noteq> Exited" by simp_all
  with assms(1) show ?thesis
    unfolding s' start_inv_def by (simp split: MainPC.splits)
qed

lemma start_inv_next:
  assumes "start_inv s"
  shows "start_inv (next_state env u a s)"
proof (cases "sys_step env u a s")
  case None
  with assms show ?thesis by (simp add: next_state_def)
next
  case (Some s')
  have "start_inv s'"
  proof (cases a)
    case Main
    with Some assms show ?thesis by (simp add: start_inv_Start_step)
  next
    case (Worker i)
    with Some assms show ?thesis by (blast intro: start_inv_worker)
  qed
  with Some show ?thesis by (simp add: next_state_def)
qed

lemma start_inv_run: "start_inv s \<Longrightarrow> start_inv (run env u sched s)"
  by (induction sched arbitrary: s) (simp_all add: start_inv_next)

text \<open>
  C1 (which the program does not meet): whatever the site, the seed and the interleaving
  of the goroutines, \<open>Start\<close> never returns. Each worker calls \<open>wg.Done\<close> only after its
  \<open>range\<close> loop has ended, the loop ends only once the channel is closed, and \<open>Start\<close> closes
  the channel only after \<open>wg.Wait\<close> has returned. So the channel stays open, no worker
  leaves its loop, and \<open>Start\<close> reaches neither \<open>close\<close> nor its return.
\<close>

theorem Start_never_returns:
  "mainpc (run env startURL sched (init w0)) \<noteq> Returned \<and>
   mainpc (run env startURL sched (init w0)) \<noteq> Closing \<and>
   \<not> closed (crawler (run env startURL sched (init w0))) \<and>
   workers (run env startURL sched (init w0)) i \<noteq> Exited"
  using start_inv_run [OF start_inv_init, of env startURL sched w0]
  by (auto simp: start_inv_def split: MainPC.splits)


section \<open>The visited set under concurrency\<close>




lemma in_critical_simps [simp]:
  "\<not> in_critical NotStarted" "\<not> in_critical Receiving"
  by (simp_all add: in_critical_def)














lemmas eval_simps = next_state_def Start_step_def init_def NewCrawler_def
  MaxWorkers_def ChanCap_def MaxDepth_def visited_get_def quiet_env_def empty_world_def
  fetch_page_def parseHTML_def Let_def

lemma run_append: "run env u (xs @ ys) s = run env u ys (run env u xs s)"
  by (induction xs arbitrary: s) simp_all





lemma worker_next:
  assumes "i < MaxWorkers"
    and "worker_step env (crawler s, world s) (workers s i) = Some ((c, w), pc)"
  shows "next_state env u (Worker i) s =
           s\<lparr>crawler := c, world := w, workers := (workers s)(i := pc)\<rparr>"
  using assms by (simp add: next_state_def)






section \<open>Downloading an image\<close>



lemma photo_filename: "Join DownloadDir (getFilenameFromURL photo_url) = ''images/a.png''"
  by (simp add: Join_def getFilenameFromURL_def Base_def photo_url_def DownloadDir_def)

lemma Copy_world:
  "\<exists>k. fst (Copy env w path body) = w\<lparr>files := (files w)(path \<mapsto> take k (content body))\<rparr>"
proof (cases "write_fault env w path")
  case None
  then have "fst (Copy env w path body) =
               w\<lparr>files := (files w)(path \<mapsto> take (length (content body)) (content body))\<rparr>"
    by (simp add: Copy_def)
  then show ?thesis ..
next
  case (Some ke)
  obtain k e where ke: "ke = (k, e)" by (cases ke)
  show ?thesis
  proof (cases "k < length (content body)")
    case True
    with Some ke have "fst (Copy env w path body) =
               w\<lparr>files := (files w)(path \<mapsto> take k (content body))\<rparr>"
      by (simp add: Copy_def)
    then show ?thesis ..
  next
    case False
    with Some ke have "fst (Copy env w path body) =
               w\<lparr>files := (files w)(path \<mapsto> take (length (content body)) (content body))\<rparr>"
      by (simp add: Copy_def)
    then show ?thesis ..
  qed
qed





text \<open>
  C10: the destination file is created, or truncated to nothing, before the copy starts.
  When the copy then fails, \<open>downloadImage\<close> returns the error of the copy, no \<open>Downloaded\<close>
  line is printed, and the file is left holding an initial part of the body (possibly
  empty) in place of whatever it held before.
\<close>

theorem download_not_atomic:
  assumes "Get env w imgURL = Inr body"
    and "MkdirAll env (w\<lparr>requests := requests w @ [imgURL]\<rparr>) DownloadDir = (w2, None)"
    and "Create env w2 (Join DownloadDir (getFilenameFromURL imgURL)) = (w3, None)"
    and "Copy env w3 (Join DownloadDir (getFilenameFromURL imgURL)) body = (w4, Some e)"
  shows "downloadImage env w imgURL = (w4, Some e) \<and>
         files w3 (Join DownloadDir (getFilenameFromURL imgURL)) = Some [] \<and>
         (\<exists>k. files w4 (Join DownloadDir (getFilenameFromURL imgURL)) =
                Some (take k (content body))) \<and>
         stdout w4 = stdout w"
proof -
  let ?f = "Join DownloadDir (getFilenameFromURL imgURL)"
  have 1: "downloadImage env w imgURL = (w4, Some e)"
    using assms by (simp add: downloadImage_def Let_def)
  have w2: "w2 = w\<lparr>requests := requests w @ [imgURL], dirs := insert DownloadDir (dirs w)\<rparr>"
    using assms(2) by (auto simp: MkdirAll_def split: option.splits)
  have w3: "w3 = w2\<lparr>files := (files w2)(?f \<mapsto> [])\<rparr>"
    using assms(3) by (auto simp: Create_def split: option.splits)
  from Copy_world [of env w3 ?f body] assms(4)
  obtain k where w4: "w4 = w3\<lparr>files := (files w3)(?f \<mapsto> take k (content body))\<rparr>"
    by auto
  have "files w4 ?f = Some (take k (content body))" by (simp add: w4)
  then have 3: "\<exists>k. files w4 ?f = Some (take k (content body))" ..
  have 2: "files w3 ?f = Some []" by (simp add: w3)
  have 4: "stdout w4 = stdout w" by (simp add: w4 w3 w2)
  from 1 2 3 4 show ?thesis by blast
qed

theorem download_not_atomic_witness:
  "Get full_disk_env old_world photo_url = Inr photo_body \<and>
   files old_world ''images/a.png'' = Some [9, 9, 9, 9] \<and>
   snd (downloadImage full_disk_env old_world photo_url) = Some (Err ''no space left on device'') \<and>
   files (fst (downloadImage full_disk_env old_world photo_url)) ''images/a.png'' = Some [1]"
proof -
  let ?w2 = "old_world\<lparr>requests := requests old_world @ [photo_url]\<rparr>"
  let ?w3 = "?w2\<lparr>files := (files ?w2)(''images/a.png'' \<mapsto> [])\<rparr>"
  let ?w4 = "?w3\<lparr>files := (files ?w3)(''images/a.png'' \<mapsto> [1])\<rparr>"
  have f: "Join DownloadDir (getFilenameFromURL photo_url) = ''images/a.png''"
    by (rule photo_filename)
  have h: "Get full_disk_env old_world photo_url = Inr photo_body"
    "MkdirAll full_disk_env (old_world\<lparr>requests := requests old_world @ [photo_url]\<rparr>)
       DownloadDir = (?w2, None)"
    "Create full_disk_env ?w2 (Join DownloadDir (getFilenameFromURL photo_url)) = (?w3, None)"
    "Copy full_disk_env ?w3 (Join DownloadDir (getFilenameFromURL photo_url)) photo_body =
       (?w4, Some (Err ''no space left on device''))"
    unfolding f
    by (simp_all add: full_disk_env_def photo_env_def MkdirAll_def Create_def Copy_def
          photo_body_def old_world_def DownloadDir_def)
  from download_not_atomic [OF h] h(1) show ?thesis
    by (simp add: old_world_def)
qed


section \<open>One item in the hands of a worker\<close>

lemma receive_over_depth:
  assumes "urlChan c = imgURL # rest" and "Depth imgURL > MaxDepth"
  shows "worker_step env (c, w) Receiving = Some ((c\<lparr>urlChan := rest\<rparr>, w), Receiving)"
  using assms by simp

text \<open>
  C3: a worker that receives an item whose depth is greater than \<open>MaxDepth\<close> drops it
  and goes back to the receive: nothing is requested, no visited check is made, and the
  visited map, like everything else but the channel, stays as it was.
\<close>

theorem over_depth_item_discarded:
  assumes "i < MaxWorkers" and "workers s i = Receiving"
    and "urlChan (crawler s) = imgURL # rest" and "Depth imgURL > MaxDepth"
  shows "next_state env startURL (Worker i) s = s\<lparr>crawler := (crawler s)\<lparr>urlChan := rest\<rparr>\<rparr> \<and>
         check_event (Worker i) s = [] \<and>
         requests (world (next_state env startURL (Worker i) s)) = requests (world s) \<and>
         visited (crawler (next_state env startURL (Worker i) s)) = visited (crawler s) \<and>
         workers (next_state env startURL (Worker i) s) i = Receiving"
proof -
  from receive_over_depth [OF assms(3,4), of env "world s"] assms(2)
  have "worker_step env (crawler s, world s) (workers s i) =
          Some (((crawler s)\<lparr>urlChan := rest\<rparr>, world s), Receiving)"
    by simp
  from worker_next [OF assms(1) this, of startURL]
  have "next_state env startURL (Worker i) s = s\<lparr>crawler := (crawler s)\<lparr>urlChan := rest\<rparr>\<rparr>"
    using assms(2) by (simp add: fun_upd_idem)
  then show ?thesis using assms(1,2) by simp
qed

theorem over_depth_item_discarded_witness:
  "(0::nat) < MaxWorkers \<and> workers over_depth_state 0 = Receiving \<and>
   urlChan (crawler over_depth_state) = [\<lparr>URL = ''https://example.com/deep'', Depth = 4\<rparr>] \<and>
   Depth \<lparr>URL = ''https://example.com/deep'', Depth = 4\<rparr> > MaxDepth \<and>
   requests (world (next_state quiet_env startURL0 (Worker 0) over_depth_state)) = [] \<and>
   urlChan (crawler (next_state quiet_env startURL0 (Worker 0) over_depth_state)) = []"
proof -
  have h: "(0::nat) < MaxWorkers" "workers over_depth_state 0 = Receiving"
    "urlChan (crawler over_depth_state) = [\<lparr>URL = ''https://example.com/deep'', Depth = 4\<rparr>]"
    "Depth \<lparr>URL = ''https://example.com/deep'', Depth = 4\<rparr> > MaxDepth"
    by (simp_all add: over_depth_state_def MaxWorkers_def MaxDepth_def NewCrawler_def)
  from over_depth_item_discarded [OF h, of quiet_env startURL0] h
  show ?thesis by (simp add: over_depth_state_def empty_world_def)
qed

lemma downloadImage_requests:
  "requests (fst (downloadImage env w img)) = requests w @ [img]"
  by (simp add: downloadImage_def MkdirAll_def Create_def Copy_def Let_def
           split: sum.splits option.splits prod.splits)

lemma download_loop_requests:
  "requests (download_loop env w images) = requests w @ images"
proof (induction images arbitrary: w)
  case Nil
  show ?case by simp
next
  case (Cons img images)
  obtain w' r where d: "downloadImage env w img = (w', r)" by (cases "downloadImage env w img")
  with downloadImage_requests [of env w img] have "requests w' = requests w @ [img]" by simp
  with d Cons.IH show ?case by (cases r) simp_all
qed

lemma fetch_page_ok:
  assumes "Get env w (URL imgURL) = Inr body"
  shows "fetch_page env w imgURL =
           (download_loop env (w\<lparr>requests := requests w @ [URL imgURL]\<rparr>)
              (snd (parseHTML (tokenizer env) body (URL imgURL) (Depth imgURL))),
            Sending imgURL (fst (parseHTML (tokenizer env) body (URL imgURL) (Depth imgURL))))"
  using assms by (simp add: fetch_page_def Let_def split: prod.splits)

lemma fetch_page_err:
  assumes "Get env w (URL imgURL) = Inl err"
  shows "fetch_page env w imgURL =
           (w\<lparr>requests := requests w @ [URL imgURL],
              stdout := stdout w @
                [''Error fetching '' @ URL imgURL @ '': '' @ message err @ newline]\<rparr>,
            Receiving)"
  using assms by (simp add: fetch_page_def Let_def)

lemma process_item:
  assumes "i < MaxWorkers" and "workers s i = Receiving"
    and "urlChan (crawler s) = imgURL # rest" and "Depth imgURL \<le> MaxDepth"
    and "\<not> visitedLock (crawler s)"
    and "\<not> visited_get (visited (crawler s)) (URL imgURL)"
  shows "run env u (replicate 6 (Worker i)) s =
           s\<lparr>crawler := (crawler s)\<lparr>urlChan := rest,
                  visited := (visited (crawler s))(URL imgURL \<mapsto> True)\<rparr>,
             world := fst (fetch_page env (world s) imgURL),
             workers := (workers s)(i := snd (fetch_page env (world s) imgURL))\<rparr>"
  using assms
  by (simp add: eval_nat_numeral next_state_def split: prod.splits)

lemma isImageURL_a_png: "isImageURL ''a.png''"
  by (simp add: isImageURL_def MatchString_imgRegex suffix_def)

lemma page_parse:
  "parseHTML (tokenizer page_env) b u d = ([''https://example.com/page2''], [''a.png'', ''a.png''])"
  by (simp add: parseHTML_def page_env_def page_tokens_def isImageURL_a_png)

lemma download_loop_foldl:
  "download_loop env w images = foldl (download_one env) w images"
proof (induction images arbitrary: w)
  case Nil
  show ?case by simp
next
  case (Cons img images)
  obtain w' r where d: "downloadImage env w img = (w', r)" by (cases "downloadImage env w img")
  with Cons.IH show ?case by (cases r) (simp_all add: download_one_def)
qed

lemma isImageURL_photo: "isImageURL photo_url"
proof -
  have "suffix ''.png'' photo_url"
    by (rule suffixI [of _ "''https://example.com/pics/a''"]) (simp add: photo_url_def)
  then show ?thesis by (simp only: isImageURL_def MatchString_imgRegex simp_thms)
qed

lemma gallery_parse:
  "parseHTML (tokenizer gallery_env) b u d = ([''https://example.com/page2''], [photo_url, photo_url])"
  by (simp add: parseHTML_def gallery_env_def gallery_tokens_def isImageURL_photo)

lemma photo_download:
  "downloadImage gallery_env w photo_url =
     (w\<lparr>requests := requests w @ [photo_url],
        dirs := insert ''images'' (dirs w),
        files := (files w)(''images/a.png'' \<mapsto> [1, 2, 3]),
        stdout := stdout w @ [''Downloaded: images/a.png'' @ newline]\<rparr>, None)"
proof -
  have "photo_url \<noteq> ''https://example.com/page1''" by (simp add: photo_url_def)
  then show ?thesis
    unfolding downloadImage_def Let_def photo_filename
    by (simp add: gallery_env_def MkdirAll_def Create_def Copy_def photo_body_def
          DownloadDir_def)
qed

text \<open>
  C9: when a worker, running its six steps from the receive to the end of the download
  loop without another goroutine in between, processes an item of depth at most
  \<open>MaxDepth\<close> (the depth itself included) whose page can be fetched, the world afterwards
  is the one obtained by requesting the page and then running \<open>downloadImage\<close> on every
  image that extraction returned, in order and once per occurrence, each with all its
  effects (request, directory, file, output line), whatever was requested or visited
  before; the only entry added to the visited map is the page's own URL.
\<close>

theorem images_downloaded_per_discovery:
  assumes "i < MaxWorkers" and "workers s i = Receiving"
    and "urlChan (crawler s) = imgURL # rest" and "Depth imgURL \<le> MaxDepth"
    and "\<not> visitedLock (crawler s)"
    and "\<not> visited_get (visited (crawler s)) (URL imgURL)"
    and "Get env (world s) (URL imgURL) = Inr body"
  shows "requests (world (run env startURL (replicate 6 (Worker i)) s)) =
           requests (world s) @ URL imgURL #
             snd (parseHTML (tokenizer env) body (URL imgURL) (Depth imgURL)) \<and>
         visited (crawler (run env startURL (replicate 6 (Worker i)) s)) =
           (visited (crawler s))(URL imgURL \<mapsto> True) \<and>
         world (run env startURL (replicate 6 (Worker i)) s) =
           foldl (download_one env) ((world s)\<lparr>requests := requests (world s) @ [URL imgURL]\<rparr>)
             (snd (parseHTML (tokenizer env) body (URL imgURL) (Depth imgURL))) \<and>
         download_one env w img =
           (case downloadImage env w img of
              (w', Some err) \<Rightarrow>
                w'\<lparr>stdout := stdout w' @
                     [''Error downloading '' @ img @ '': '' @ message err @ newline]\<rparr>
            | (w', None) \<Rightarrow> w')"
proof -
  let ?w1 = "(world s)\<lparr>requests := requests (world s) @ [URL imgURL]\<rparr>"
  let ?images = "snd (parseHTML (tokenizer env) body (URL imgURL) (Depth imgURL))"
  have w: "world (run env startURL (replicate 6 (Worker i)) s) = download_loop env ?w1 ?images"
    unfolding process_item [OF assms(1-6)] by (simp add: fetch_page_ok [OF assms(7)])
  have 1: "requests (world (run env startURL (replicate 6 (Worker i)) s)) =
             requests (world s) @ URL imgURL # ?images"
    unfolding w by (simp add: download_loop_requests)
  have 2: "visited (crawler (run env startURL (replicate 6 (Worker i)) s)) =
             (visited (crawler s))(URL imgURL \<mapsto> True)"
    unfolding process_item [OF assms(1-6)] by simp
  have 3: "world (run env startURL (replicate 6 (Worker i)) s) =
             foldl (download_one env) ?w1 ?images"
    unfolding w by (rule download_loop_foldl)
  from 1 2 3 show ?thesis by (simp add: download_one_def)
qed

theorem images_downloaded_per_discovery_witness:
  "(0::nat) < MaxWorkers \<and> workers gallery_state 0 = Receiving \<and>
   urlChan (crawler gallery_state) = [page_item] \<and> Depth page_item = MaxDepth \<and>
   \<not> visitedLock (crawler gallery_state) \<and>
   \<not> visited_get (visited (crawler gallery_state)) (URL page_item) \<and>
   visited_get (visited (crawler gallery_state)) photo_url \<and>
   requests (world gallery_state) = [photo_url] \<and>
   Get gallery_env (world gallery_state) (URL page_item) = Inr \<lparr>content = [], read_err = None\<rparr> \<and>
   world (run gallery_env startURL0 (replicate 6 (Worker 0)) gallery_state) =
     \<lparr>files = [''images/a.png'' \<mapsto> [1, 2, 3]], dirs = {''images''},
      stdout = [''Downloaded: images/a.png'' @ newline, ''Downloaded: images/a.png'' @ newline],
      requests = [photo_url, ''https://example.com/page1'', photo_url, photo_url]\<rparr>"
proof -
  have h: "(0::nat) < MaxWorkers" "workers gallery_state 0 = Receiving"
    "urlChan (crawler gallery_state) = page_item # []" "Depth page_item \<le> MaxDepth"
    "\<not> visitedLock (crawler gallery_state)"
    "\<not> visited_get (visited (crawler gallery_state)) (URL page_item)"
    "Get gallery_env (world gallery_state) (URL page_item) = Inr \<lparr>content = [], read_err = None\<rparr>"
    by (simp_all add: gallery_state_def page_item_def gallery_env_def MaxWorkers_def MaxDepth_def
          visited_get_def photo_url_def)
  have more: "Depth page_item = MaxDepth" "visited_get (visited (crawler gallery_state)) photo_url"
    "requests (world gallery_state) = [photo_url]"
    by (simp_all add: gallery_state_def page_item_def MaxDepth_def visited_get_def)
  note T = images_downloaded_per_discovery [OF h, of startURL0]
  have w: "world gallery_state =
             \<lparr>files = Map.empty, dirs = {}, stdout = [], requests = [photo_url]\<rparr>"
    by (simp add: gallery_state_def)
  from T [THEN conjunct2, THEN conjunct2, THEN conjunct1]
  have "world (run gallery_env startURL0 (replicate 6 (Worker 0)) gallery_state) =
     \<lparr>files = [''images/a.png'' \<mapsto> [1, 2, 3]], dirs = {''images''},
      stdout = [''Downloaded: images/a.png'' @ newline, ''Downloaded: images/a.png'' @ newline],
      requests = [photo_url, ''https://example.com/page1'', photo_url, photo_url]\<rparr>"
    unfolding gallery_parse w
    by (simp add: download_one_def photo_download page_item_def)
  with h more show ?thesis by simp
qed

lemma send_step:
  assumes "\<not> closed c" and "length (urlChan c) < ChanCap"
  shows "worker_step env (c, w) (Sending imgURL (link # links)) =
           Some ((c\<lparr>urlChan := urlChan c @ [\<lparr>URL = link, Depth = Depth imgURL + 1\<rparr>]\<rparr>, w),
                 Sending imgURL links)"
  using assms by simp

lemma send_all:
  assumes "i < MaxWorkers" and "workers s i = Sending imgURL links"
    and "\<not> closed (crawler s)"
    and "length (urlChan (crawler s)) + length links \<le> ChanCap"
  shows "urlChan (crawler (run env u (replicate (length links) (Worker i)) s)) =
           urlChan (crawler s) @ map (\<lambda>l. \<lparr>URL = l, Depth = Depth imgURL + 1\<rparr>) links"
  using assms
proof (induction links arbitrary: s)
  case Nil
  show ?case by simp
next
  case (Cons link links)
  let ?c = "(crawler s)\<lparr>urlChan := urlChan (crawler s) @ [\<lparr>URL = link, Depth = Depth imgURL + 1\<rparr>]\<rparr>"
  let ?s' = "s\<lparr>crawler := ?c, world := world s, workers := (workers s)(i := Sending imgURL links)\<rparr>"
  from Cons.prems have "length (urlChan (crawler s)) < ChanCap" by simp
  from send_step [OF Cons.prems(3) this, of env "world s" imgURL link links] Cons.prems(2)
  have "worker_step env (crawler s, world s) (workers s i) =
          Some ((?c, world s), Sending imgURL links)" by simp
  from worker_next [OF Cons.prems(1) this, of u]
  have n: "next_state env u (Worker i) s = ?s'" .
  have "urlChan (crawler (run env u (replicate (length links) (Worker i)) ?s')) =
          urlChan (crawler ?s') @ map (\<lambda>l. \<lparr>URL = l, Depth = Depth imgURL + 1\<rparr>) links"
    by (rule Cons.IH) (use Cons.prems in simp_all)
  then show ?case by (simp add: n)
qed

lemma send_prefix:
  assumes "i < MaxWorkers" and "workers s i = Sending imgURL (ls @ rest)"
    and "\<not> closed (crawler s)"
    and "length (urlChan (crawler s)) + length ls \<le> ChanCap"
  shows "run env u (replicate (length ls) (Worker i)) s =
           s\<lparr>crawler := (crawler s)\<lparr>urlChan := urlChan (crawler s) @
                  map (\<lambda>l. \<lparr>URL = l, Depth = Depth imgURL + 1\<rparr>) ls\<rparr>,
             workers := (workers s)(i := Sending imgURL rest)\<rparr>"
  using assms
proof (induction ls arbitrary: s)
  case Nil
  then show ?case by (simp add: fun_upd_idem)
next
  case (Cons link ls)
  let ?c = "(crawler s)\<lparr>urlChan := urlChan (crawler s) @ [\<lparr>URL = link, Depth = Depth imgURL + 1\<rparr>]\<rparr>"
  let ?s' = "s\<lparr>crawler := ?c, world := world s, workers := (workers s)(i := Sending imgURL (ls @ rest))\<rparr>"
  from Cons.prems have "length (urlChan (crawler s)) < ChanCap" by simp
  from send_step [OF Cons.prems(3) this, of env "world s" imgURL link "ls @ rest"] Cons.prems(2)
  have "worker_step env (crawler s, world s) (workers s i) =
          Some ((?c, world s), Sending imgURL (ls @ rest))" by simp
  from worker_next [OF Cons.prems(1) this, of u]
  have n: "next_state env u (Worker i) s = ?s'" .
  let ?t = "s\<lparr>crawler := (crawler s)\<lparr>urlChan := urlChan (crawler s) @
                  map (\<lambda>l. \<lparr>URL = l, Depth = Depth imgURL + 1\<rparr>) (link # ls)\<rparr>,
             workers := (workers s)(i := Sending imgURL rest)\<rparr>"
  have e: "?s'\<lparr>crawler := (crawler ?s')\<lparr>urlChan := urlChan (crawler ?s') @
                  map (\<lambda>l. \<lparr>URL = l, Depth = Depth imgURL + 1\<rparr>) ls\<rparr>,
             workers := (workers ?s')(i := Sending imgURL rest)\<rparr> = ?t"
    by simp
  have "run env u (replicate (length ls) (Worker i)) ?s' =
          ?s'\<lparr>crawler := (crawler ?s')\<lparr>urlChan := urlChan (crawler ?s') @
                  map (\<lambda>l. \<lparr>URL = l, Depth = Depth imgURL + 1\<rparr>) ls\<rparr>,
             workers := (workers ?s')(i := Sending imgURL rest)\<rparr>"
    by (rule Cons.IH) (use Cons.prems in simp_all)
  then have "run env u (replicate (length ls) (Worker i)) ?s' = ?t"
    by (simp only: e)
  then show ?case
    by (simp only: length_Cons replicate_Suc run.simps n)
qed

lemma fetch_send_receive:
  assumes i: "i < MaxWorkers" and pc: "workers s i = Fetching imgURL"
    and get: "Get env (world s) (URL imgURL) = Inr body"
    and op: "\<not> closed (crawler s)"
    and room: "length (urlChan (crawler s)) +
               length (fst (parseHTML (tokenizer env) body (URL imgURL) (Depth imgURL))) \<le> ChanCap"
  shows "run env u (replicate (length (fst (parseHTML (tokenizer env) body (URL imgURL)
                       (Depth imgURL))) + 2) (Worker i)) s =
           s\<lparr>crawler := (crawler s)\<lparr>urlChan := urlChan (crawler s) @
                  map (\<lambda>l. \<lparr>URL = l, Depth = Depth imgURL + 1\<rparr>)
                    (fst (parseHTML (tokenizer env) body (URL imgURL) (Depth imgURL)))\<rparr>,
             world := download_loop env ((world s)\<lparr>requests := requests (world s) @ [URL imgURL]\<rparr>)
                        (snd (parseHTML (tokenizer env) body (URL imgURL) (Depth imgURL))),
             workers := (workers s)(i := Receiving)\<rparr>"
proof -
  let ?links = "fst (parseHTML (tokenizer env) body (URL imgURL) (Depth imgURL))"
  let ?w = "download_loop env ((world s)\<lparr>requests := requests (world s) @ [URL imgURL]\<rparr>)
              (snd (parseHTML (tokenizer env) body (URL imgURL) (Depth imgURL)))"
  let ?s1 = "s\<lparr>crawler := crawler s, world := ?w, workers := (workers s)(i := Sending imgURL ?links)\<rparr>"
  let ?s2 = "?s1\<lparr>crawler := (crawler ?s1)\<lparr>urlChan := urlChan (crawler ?s1) @
                  map (\<lambda>l. \<lparr>URL = l, Depth = Depth imgURL + 1\<rparr>) ?links\<rparr>,
               workers := (workers ?s1)(i := Sending imgURL [])\<rparr>"
  have "worker_step env (crawler s, world s) (workers s i) =
          Some ((crawler s, ?w), Sending imgURL ?links)"
    by (simp add: pc fetch_page_ok [OF get])
  from worker_next [OF i this, of u]
  have 1: "next_state env u (Worker i) s = ?s1" .
  have 2: "run env u (replicate (length ?links) (Worker i)) ?s1 = ?s2"
    by (rule send_prefix [where rest = "[]", simplified]) (use i op room in simp_all)
  have "worker_step env (crawler ?s2, world ?s2) (workers ?s2 i) =
          Some ((crawler ?s2, world ?s2), Receiving)"
    by simp
  from worker_next [OF i this, of u]
  have 3: "next_state env u (Worker i) ?s2 =
             ?s2\<lparr>crawler := crawler ?s2, world := world ?s2,
                  workers := (workers ?s2)(i := Receiving)\<rparr>" .
  have r: "replicate (length ?links + 2) (Worker i) =
          Worker i # (replicate (length ?links) (Worker i) @ [Worker i])"
    by (simp add: replicate_append_same)
  have "run env u (Worker i # (replicate (length ?links) (Worker i) @ [Worker i])) s =
               next_state env u (Worker i) ?s2"
    by (simp only: run.simps run_append 1 2)
  then have "run env u (replicate (length ?links + 2) (Worker i)) s =
               next_state env u (Worker i) ?s2"
    by (simp only: r)
  also have "\<dots> = s\<lparr>crawler := (crawler s)\<lparr>urlChan := urlChan (crawler s) @
                  map (\<lambda>l. \<lparr>URL = l, Depth = Depth imgURL + 1\<rparr>) ?links\<rparr>,
             world := ?w, workers := (workers s)(i := Receiving)\<rparr>"
    unfolding 3 by simp
  finally show ?thesis .
qed

lemma receive_step:
  assumes "urlChan c = imgURL # rest"
  shows "worker_step env (c, w) Receiving =
           Some ((c\<lparr>urlChan := rest\<rparr>, w),
                 if Depth imgURL > MaxDepth then Receiving else Locking imgURL)"
  using assms by simp

lemma send_blocked:
  assumes "\<not> closed c" and "\<not> length (urlChan c) < ChanCap"
  shows "worker_step env (c, w) (Sending imgURL (link # links)) = None"
  using assms by simp

text \<open>
  C4 (amended): after a page has been fetched the worker sends every link of the page,
  in order, each with the page's depth plus one. The send has no condition on the depth;
  it takes place when the channel has room and waits while the channel is full, the link
  staying with the worker and the state unchanged: no link is dropped or filtered. An
  item sent with a depth above \<open>MaxDepth\<close> is dropped by the worker that receives it, which
  goes back to the receive without a request.
\<close>

theorem links_pushed_without_depth_filter:
  "(Get env w (URL imgURL) = Inr body \<longrightarrow>
      snd (fetch_page env w imgURL) =
        Sending imgURL (fst (parseHTML (tokenizer env) body (URL imgURL) (Depth imgURL)))) \<and>
   (\<not> closed c \<and> length (urlChan c) < ChanCap \<longrightarrow>
      worker_step env (c, w) (Sending imgURL (link # links)) =
        Some ((c\<lparr>urlChan := urlChan c @ [\<lparr>URL = link, Depth = Depth imgURL + 1\<rparr>]\<rparr>, w),
              Sending imgURL links)) \<and>
   (i < MaxWorkers \<and> workers s i = Sending imgURL ls \<and> \<not> closed (crawler s) \<and>
    length (urlChan (crawler s)) + length ls \<le> ChanCap \<longrightarrow>
      urlChan (crawler (run env startURL (replicate (length ls) (Worker i)) s)) =
        urlChan (crawler s) @ map (\<lambda>l. \<lparr>URL = l, Depth = Depth imgURL + 1\<rparr>) ls) \<and>
   (Depth imgURL + 1 > MaxDepth \<and>
    urlChan c' = \<lparr>URL = link, Depth = Depth imgURL + 1\<rparr> # rest \<longrightarrow>
      worker_step env (c', w') Receiving = Some ((c'\<lparr>urlChan := rest\<rparr>, w'), Receiving)) \<and>
   (\<not> closed c \<and> \<not> length (urlChan c) < ChanCap \<longrightarrow>
      worker_step env (c, w) (Sending imgURL (link # links)) = None) \<and>
   (j < MaxWorkers \<and> workers t j = Sending imgURL (link # links) \<and> \<not> closed (crawler t) \<and>
    \<not> length (urlChan (crawler t)) < ChanCap \<longrightarrow>
      next_state env startURL (Worker j) t = t)"
  using send_all [of i s imgURL ls env startURL]
  by (simp add: fetch_page_ok next_state_def)

theorem links_pushed_without_depth_filter_witness:
  "Get page_env empty_world (URL page_item) = Inr \<lparr>content = [], read_err = None\<rparr> \<and>
   snd (fetch_page page_env empty_world page_item) =
     Sending page_item [''https://example.com/page2''] \<and>
   \<not> closed NewCrawler \<and> length (urlChan NewCrawler) < ChanCap \<and>
   worker_step page_env (NewCrawler, empty_world)
       (Sending page_item [''https://example.com/page2'']) =
     Some ((NewCrawler\<lparr>urlChan := [\<lparr>URL = ''https://example.com/page2'', Depth = 4\<rparr>]\<rparr>,
            empty_world), Sending page_item []) \<and>
   (0::nat) < MaxWorkers \<and>
   urlChan (crawler (run page_env startURL0 [Worker 0] sending_state)) =
     [\<lparr>URL = ''https://example.com/page2'', Depth = 4\<rparr>] \<and>
   Depth page_item + 1 > MaxDepth \<and>
   worker_step page_env
       (NewCrawler\<lparr>urlChan := [\<lparr>URL = ''https://example.com/page2'', Depth = 4\<rparr>]\<rparr>,
        empty_world) Receiving =
     Some ((NewCrawler\<lparr>urlChan := []\<rparr>, empty_world), Receiving) \<and>
   \<not> closed full_crawler \<and> \<not> length (urlChan full_crawler) < ChanCap \<and>
   worker_step page_env (full_crawler, empty_world)
       (Sending page_item [''https://example.com/page2'']) = None \<and>
   workers full_state 0 = Sending page_item [''https://example.com/page2''] \<and>
   next_state page_env startURL0 (Worker 0) full_state = full_state"
proof -
  have h: "Get page_env empty_world (URL page_item) = Inr \<lparr>content = [], read_err = None\<rparr>"
    "\<not> closed NewCrawler" "length (urlChan NewCrawler) < ChanCap" "(0::nat) < MaxWorkers"
    "workers sending_state 0 = Sending page_item [''https://example.com/page2'']"
    "\<not> closed (crawler sending_state)"
    "length (urlChan (crawler sending_state)) + length [''https://example.com/page2''] \<le> ChanCap"
    "Depth page_item + 1 > MaxDepth"
    "urlChan (NewCrawler\<lparr>urlChan := [\<lparr>URL = ''https://example.com/page2'', Depth = 4\<rparr>]\<rparr>) =
       \<lparr>URL = ''https://example.com/page2'', Depth = Depth page_item + 1\<rparr> # []"
    by (simp_all add: page_env_def page_item_def NewCrawler_def ChanCap_def MaxWorkers_def
          MaxDepth_def sending_state_def)
  have g: "\<not> closed full_crawler" "\<not> length (urlChan full_crawler) < ChanCap"
    "workers full_state 0 = Sending page_item [''https://example.com/page2'']"
    "\<not> closed (crawler full_state)" "\<not> length (urlChan (crawler full_state)) < ChanCap"
    by (simp_all add: full_crawler_def full_state_def NewCrawler_def ChanCap_def)
  note T = links_pushed_without_depth_filter [where env = page_env and w = empty_world
      and imgURL = page_item and body = "\<lparr>content = [], read_err = None\<rparr>"
      and c = NewCrawler and link = "''https://example.com/page2''" and links = "[]"
      and i = 0 and s = sending_state and ls = "[''https://example.com/page2'']"
      and startURL = startURL0
      and c' = "NewCrawler\<lparr>urlChan := [\<lparr>URL = ''https://example.com/page2'', Depth = 4\<rparr>]\<rparr>"
      and rest = "[]" and w' = empty_world and j = 0 and t = full_state]
  note U = links_pushed_without_depth_filter [where env = page_env and w = empty_world
      and imgURL = page_item and c = full_crawler and link = "''https://example.com/page2''"
      and links = "[]" and startURL = startURL0 and j = 0 and t = full_state]
  note c1 = T [THEN conjunct1, THEN mp, OF h(1)]
  note c2 = T [THEN conjunct2, THEN conjunct1, THEN mp, OF conjI [OF h(2) h(3)]]
  note c3 = T [THEN conjunct2, THEN conjunct2, THEN conjunct1, THEN mp,
      OF conjI [OF h(4) conjI [OF h(5) conjI [OF h(6) h(7)]]]]
  note c4 = T [THEN conjunct2, THEN conjunct2, THEN conjunct2, THEN conjunct1, THEN mp,
      OF conjI [OF h(8) h(9)]]
  note c5 = U [THEN conjunct2, THEN conjunct2, THEN conjunct2, THEN conjunct2, THEN conjunct1,
      THEN mp, OF conjI [OF g(1) g(2)]]
  note c6 = U [THEN conjunct2, THEN conjunct2, THEN conjunct2, THEN conjunct2, THEN conjunct2,
      THEN mp, OF conjI [OF h(4) conjI [OF g(3) conjI [OF g(4) g(5)]]]]
  from c1 c2 c3 c4 h have old: "snd (fetch_page page_env empty_world page_item) =
     Sending page_item [''https://example.com/page2''] \<and>
   worker_step page_env (NewCrawler, empty_world)
       (Sending page_item [''https://example.com/page2'']) =
     Some ((NewCrawler\<lparr>urlChan := [\<lparr>URL = ''https://example.com/page2'', Depth = 4\<rparr>]\<rparr>,
            empty_world), Sending page_item []) \<and>
   urlChan (crawler (run page_env startURL0 [Worker 0] sending_state)) =
     [\<lparr>URL = ''https://example.com/page2'', Depth = 4\<rparr>] \<and>
   worker_step page_env
       (NewCrawler\<lparr>urlChan := [\<lparr>URL = ''https://example.com/page2'', Depth = 4\<rparr>]\<rparr>,
        empty_world) Receiving =
     Some ((NewCrawler\<lparr>urlChan := []\<rparr>, empty_world), Receiving)"
    by (simp add: page_parse page_item_def sending_state_def NewCrawler_def)
  from old h(1-4,8) g(1-3) c5 c6 show ?thesis by simp
qed

subsection \<open>Links that are never sent\<close>

lemma page_eq [simp]: "page i = page j \<longleftrightarrow> i = j"
proof
  assume "page i = page j"
  then have "length (page i) = length (page j)" by simp
  then show "i = j" by (simp add: page_def)
qed simp

lemma page_not_seed [simp]: "page j \<noteq> startURL0" "startURL0 \<noteq> page j"
proof -
  have "length (page j) \<noteq> length startURL0" by (simp add: page_def startURL0_def)
  then show "page j \<noteq> startURL0" "startURL0 \<noteq> page j" by auto
qed

lemma link_tokens_links:
  "token_loop (map link_token ls) links images = (links @ ls, images)"
  by (induction ls arbitrary: links) (simp_all add: link_token_def)

lemma wide_parse: "parseHTML (tokenizer wide_env) b u d = (wide_links, [])"
  by (simp add: parseHTML_def wide_env_def link_tokens_links)

lemma wide_get: "Get wide_env w u = Inr \<lparr>content = [], read_err = None\<rparr>"
  by (simp add: wide_env_def)

lemma jam_A:
  "run wide_env startURL0 (replicate 12 Main) (init empty_world) =
   \<lparr>crawler = \<lparr>visited = Map.empty, visitedLock = False, wg = 10,
        urlChan = [\<lparr>URL = startURL0, Depth = 1\<rparr>], closed = False\<rparr>,
    world = empty_world,
    workers = (\<lambda>_. NotStarted)(0 := Receiving, 1 := Receiving, 2 := Receiving, 3 := Receiving,
      4 := Receiving, 5 := Receiving, 6 := Receiving, 7 := Receiving, 8 := Receiving,
      9 := Receiving),
    mainpc = Waiting\<rparr>"
  by (simp add: next_state_def Start_step_def init_def NewCrawler_def MaxWorkers_def ChanCap_def
        eval_nat_numeral)

lemma jam_B:
  "run wide_env startURL0 (replicate 12 Main @ replicate 6 (Worker 0)) (init empty_world) =
   \<lparr>crawler = \<lparr>visited = [startURL0 \<mapsto> True], visitedLock = False, wg = 10,
        urlChan = [], closed = False\<rparr>,
    world = empty_world\<lparr>requests := [startURL0]\<rparr>,
    workers = (\<lambda>_. NotStarted)(0 := Sending \<lparr>URL = startURL0, Depth = 1\<rparr> wide_links,
      1 := Receiving, 2 := Receiving, 3 := Receiving,
      4 := Receiving, 5 := Receiving, 6 := Receiving, 7 := Receiving, 8 := Receiving,
      9 := Receiving),
    mainpc = Waiting\<rparr>"
  unfolding run_append jam_A
  by (subst process_item [where imgURL = "\<lparr>URL = startURL0, Depth = 1\<rparr>" and rest = "[]"])
     (simp_all add: MaxWorkers_def MaxDepth_def visited_get_def fetch_page_ok [OF wide_get]
        wide_parse empty_world_def fun_upd_twist)

lemma jam_C:
  "run wide_env startURL0 (replicate 12 Main @ replicate 106 (Worker 0)) (init empty_world) =
   \<lparr>crawler = \<lparr>visited = [startURL0 \<mapsto> True], visitedLock = False, wg = 10,
        urlChan = map (\<lambda>l. \<lparr>URL = l, Depth = 2\<rparr>) (map page [1..<10] @ replicate 91 (page 1)),
        closed = False\<rparr>,
    world = empty_world\<lparr>requests := [startURL0]\<rparr>,
    workers = (\<lambda>_. NotStarted)(0 := Sending \<lparr>URL = startURL0, Depth = 1\<rparr> [page 1],
      1 := Receiving, 2 := Receiving, 3 := Receiving,
      4 := Receiving, 5 := Receiving, 6 := Receiving, 7 := Receiving, 8 := Receiving,
      9 := Receiving),
    mainpc = Waiting\<rparr>"
proof -
  let ?ls = "map page [1..<10] @ replicate 91 (page 1)"
  have l: "length ?ls = 100" by simp
  have split: "replicate 12 Main @ replicate 106 (Worker 0) =
               (replicate 12 Main @ replicate 6 (Worker 0)) @ replicate (length ?ls) (Worker 0)"
    unfolding l by (simp add: replicate_add [symmetric])
  show ?thesis
    unfolding split run_append [of _ _ "replicate 12 Main @ replicate 6 (Worker 0)"] jam_B
    by (subst send_prefix [where imgURL = "\<lparr>URL = startURL0, Depth = 1\<rparr>" and ls = ?ls
          and rest = "[page 1]"])
       (simp_all add: MaxWorkers_def ChanCap_def wide_links_def fun_upd_twist)
qed

lemma pages_1_9:
  "map page [1..<10] = [page 1, page 2, page 3, page 4, page 5, page 6, page 7, page 8, page 9]"
  by (simp add: upt_rec)

lemma rounds_sched:
  "concat (map (\<lambda>j. replicate 7 (Worker j)) [1..<10]) =
     [Worker 1, Worker 1, Worker 1, Worker 1, Worker 1, Worker 1, Worker 1,
      Worker 2, Worker 2, Worker 2, Worker 2, Worker 2, Worker 2, Worker 2,
      Worker 3, Worker 3, Worker 3, Worker 3, Worker 3, Worker 3, Worker 3,
      Worker 4, Worker 4, Worker 4, Worker 4, Worker 4, Worker 4, Worker 4,
      Worker 5, Worker 5, Worker 5, Worker 5, Worker 5, Worker 5, Worker 5,
      Worker 6, Worker 6, Worker 6, Worker 6, Worker 6, Worker 6, Worker 6,
      Worker 7, Worker 7, Worker 7, Worker 7, Worker 7, Worker 7, Worker 7,
      Worker 8, Worker 8, Worker 8, Worker 8, Worker 8, Worker 8, Worker 8,
      Worker 9, Worker 9, Worker 9, Worker 9, Worker 9, Worker 9, Worker 9]"
proof -
  have r: "replicate 7 x = [x, x, x, x, x, x, x]" for x :: Actor
    by (simp add: eval_nat_numeral)
  have u: "[1..<10] = [1, 2, 3, 4, 5, 6, 7, 8, 9::nat]" by (simp add: upt_rec)
  show ?thesis unfolding r u by simp
qed

lemma wide_links_cons: "wide_links = page 1 # wide_tail"
  unfolding wide_links_def wide_tail_def pages_1_9 by simp

lemma jam_D:
  "run wide_env startURL0 jam_sched (init empty_world) =
   \<lparr>crawler =
      \<lparr>visited = [startURL0 \<mapsto> True, page 1 \<mapsto> True, page 2 \<mapsto> True, page 3 \<mapsto> True,
                  page 4 \<mapsto> True, page 5 \<mapsto> True, page 6 \<mapsto> True, page 7 \<mapsto> True,
                  page 8 \<mapsto> True, page 9 \<mapsto> True],
       visitedLock = False, wg = 10,
       urlChan = replicate 91 \<lparr>URL = page 1, Depth = 2\<rparr> @
                 replicate 9 \<lparr>URL = page 1, Depth = 3\<rparr>,
       closed = False\<rparr>,
    world = empty_world\<lparr>requests := [startURL0, page 1, page 2, page 3, page 4, page 5,
                                        page 6, page 7, page 8, page 9]\<rparr>,
    workers = (\<lambda>_. NotStarted)
      (0 := Sending \<lparr>URL = startURL0, Depth = 1\<rparr> [page 1],
       1 := Sending \<lparr>URL = page 1, Depth = 2\<rparr> wide_tail,
       2 := Sending \<lparr>URL = page 2, Depth = 2\<rparr> wide_tail,
       3 := Sending \<lparr>URL = page 3, Depth = 2\<rparr> wide_tail,
       4 := Sending \<lparr>URL = page 4, Depth = 2\<rparr> wide_tail,
       5 := Sending \<lparr>URL = page 5, Depth = 2\<rparr> wide_tail,
       6 := Sending \<lparr>URL = page 6, Depth = 2\<rparr> wide_tail,
       7 := Sending \<lparr>URL = page 7, Depth = 2\<rparr> wide_tail,
       8 := Sending \<lparr>URL = page 8, Depth = 2\<rparr> wide_tail,
       9 := Sending \<lparr>URL = page 9, Depth = 2\<rparr> wide_tail),
    mainpc = Waiting\<rparr>"
proof -
  have split: "jam_sched = (replicate 12 Main @ replicate 106 (Worker 0)) @
                 concat (map (\<lambda>j. replicate 7 (Worker j)) [1..<10])"
    by (simp add: jam_sched_def)
  have nine: "replicate 9 x = [x, x, x, x, x, x, x, x, x]" for x :: ImageURL
    by (simp add: eval_nat_numeral)
  show ?thesis
    unfolding split run_append [of _ _ "replicate 12 Main @ replicate 106 (Worker 0)"] jam_C
      rounds_sched pages_1_9 nine
    by (simp add: next_state_def MaxWorkers_def ChanCap_def MaxDepth_def visited_get_def
          fetch_page_ok [OF wide_get] wide_parse wide_links_cons)
qed

lemma wide_tail_cons:
  "wide_tail = page 2 # (map page [3..<10] @ replicate 91 (page 1) @ [page 1])"
  by (simp add: wide_tail_def upt_rec [of 2])

lemma blocked_all:
  assumes "blocked env su s"
  shows "sys_step env su a s = None"
proof (cases a)
  case Main
  with assms show ?thesis by (simp add: blocked_def)
next
  case (Worker i)
  show ?thesis
  proof (cases "i < MaxWorkers")
    case True
    with assms have "sys_step env su (Worker i) s = None"
      by (simp add: blocked_def list_all_iff del: sys_step.simps)
    with Worker show ?thesis by simp
  next
    case False
    with Worker show ?thesis by simp
  qed
qed

lemma blocked_run: "blocked env su s \<Longrightarrow> run env su sched s = s"
  by (induction sched) (simp_all add: next_state_def blocked_all del: sys_step.simps)

lemma jam_blocked:
  "blocked wide_env startURL0 (run wide_env startURL0 jam_sched (init empty_world))"
  unfolding jam_D blocked_def
  by (simp add: MaxWorkers_def ChanCap_def Start_step_def wide_tail_cons upt_rec)

text \<open>
  Not every extracted link is sent. On the site of wide pages the seed page yields 101
  links; in the run \<open>jam_sched\<close> the first worker has sent 100 of them when the channel is
  full, and every other worker stands in a send as well. \<open>Start\<close> and all ten workers are
  blocked, so the state never changes again and the last link of the seed page stays
  unsent.
\<close>

theorem links_pushed_counterexample:
  "fst (parseHTML (tokenizer wide_env) \<lparr>content = [], read_err = None\<rparr> startURL0 1) =
     wide_links \<and>
   length wide_links = 101 \<and>
   workers (run wide_env startURL0 jam_sched (init empty_world)) 0 =
     Sending \<lparr>URL = startURL0, Depth = 1\<rparr> [page 1] \<and>
   length (urlChan (crawler (run wide_env startURL0 jam_sched (init empty_world)))) = ChanCap \<and>
   blocked wide_env startURL0 (run wide_env startURL0 jam_sched (init empty_world)) \<and>
   run wide_env startURL0 (jam_sched @ jam_sched) (init empty_world) =
     run wide_env startURL0 jam_sched (init empty_world)"
proof -
  have "run wide_env startURL0 (jam_sched @ jam_sched) (init empty_world) =
        run wide_env startURL0 jam_sched (init empty_world)"
    unfolding run_append by (rule blocked_run) (rule jam_blocked)
  moreover have "length wide_links = 101" by (simp add: wide_links_def)
  moreover have "workers (run wide_env startURL0 jam_sched (init empty_world)) 0 =
     Sending \<lparr>URL = startURL0, Depth = 1\<rparr> [page 1]"
    "length (urlChan (crawler (run wide_env startURL0 jam_sched (init empty_world)))) = ChanCap"
    unfolding jam_D by (simp_all add: ChanCap_def)
  ultimately show ?thesis using jam_blocked by (simp add: wide_parse)
qed

text \<open>
  C8: a page that cannot be fetched costs one request and one line on standard
  output, and the worker goes back to the receive with the crawler unchanged (the URL stays
  visited, so it is not tried again). A failed download is reported by one line and the loop
  goes on with the next image: every image is requested exactly once whether downloads fail
  or not, and the links of the page are sent all the same. In no case does the worker panic
  or leave its loop: once the links are sent (which needs room in the channel) the worker
  is back at the receive, whatever became of the downloads, and there it takes the next
  item of the channel.
\<close>

theorem errors_stay_with_their_item:
  "(Get env w (URL imgURL) = Inl err \<longrightarrow>
      worker_step env (c, w) (Fetching imgURL) =
        Some ((c, w\<lparr>requests := requests w @ [URL imgURL],
                     stdout := stdout w @
                       [''Error fetching '' @ URL imgURL @ '': '' @ message err @ newline]\<rparr>),
              Receiving)) \<and>
   (Get env w (URL imgURL) = Inr body \<longrightarrow>
      worker_step env (c, w) (Fetching imgURL) =
        Some ((c, download_loop env (w\<lparr>requests := requests w @ [URL imgURL]\<rparr>)
                    (snd (parseHTML (tokenizer env) body (URL imgURL) (Depth imgURL)))),
              Sending imgURL (fst (parseHTML (tokenizer env) body (URL imgURL) (Depth imgURL))))) \<and>
   (snd (downloadImage env w img) = Some derr \<longrightarrow>
      download_loop env w (img # images) =
        download_loop env
          ((fst (downloadImage env w img))
             \<lparr>stdout := stdout (fst (downloadImage env w img)) @
                [''Error downloading '' @ img @ '': '' @ message derr @ newline]\<rparr>) images) \<and>
   requests (download_loop env w images) = requests w @ images \<and>
   snd (fetch_page env w imgURL) \<noteq> Panicked \<and> snd (fetch_page env w imgURL) \<noteq> Exited \<and>
   worker_step env (c, w) (Sending imgURL []) = Some ((c, w), Receiving) \<and>
   (urlChan c = item # rest \<longrightarrow>
      worker_step env (c, w) Receiving =
        Some ((c\<lparr>urlChan := rest\<rparr>, w),
              if Depth item > MaxDepth then Receiving else Locking item)) \<and>
   (i < MaxWorkers \<and> workers s i = Fetching imgURL \<and>
    Get env (world s) (URL imgURL) = Inl err \<longrightarrow>
      workers (next_state env startURL (Worker i) s) i = Receiving \<and>
      crawler (next_state env startURL (Worker i) s) = crawler s) \<and>
   (i < MaxWorkers \<and> workers s i = Fetching imgURL \<and>
    Get env (world s) (URL imgURL) = Inr body \<and> \<not> closed (crawler s) \<and>
    length (urlChan (crawler s)) +
      length (fst (parseHTML (tokenizer env) body (URL imgURL) (Depth imgURL))) \<le> ChanCap \<longrightarrow>
      workers (run env startURL
         (replicate (length (fst (parseHTML (tokenizer env) body (URL imgURL) (Depth imgURL))) + 2)
            (Worker i)) s) i = Receiving \<and>
      urlChan (crawler (run env startURL
         (replicate (length (fst (parseHTML (tokenizer env) body (URL imgURL) (Depth imgURL))) + 2)
            (Worker i)) s)) =
        urlChan (crawler s) @ map (\<lambda>l. \<lparr>URL = l, Depth = Depth imgURL + 1\<rparr>)
          (fst (parseHTML (tokenizer env) body (URL imgURL) (Depth imgURL))) \<and>
      world (run env startURL
         (replicate (length (fst (parseHTML (tokenizer env) body (URL imgURL) (Depth imgURL))) + 2)
            (Worker i)) s) =
        download_loop env ((world s)\<lparr>requests := requests (world s) @ [URL imgURL]\<rparr>)
          (snd (parseHTML (tokenizer env) body (URL imgURL) (Depth imgURL))))"
proof -
  have a: "download_loop env w (img # images) =
        download_loop env
          ((fst (downloadImage env w img))
             \<lparr>stdout := stdout (fst (downloadImage env w img)) @
                [''Error downloading '' @ img @ '': '' @ message derr @ newline]\<rparr>) images"
    if "snd (downloadImage env w img) = Some derr"
    using that by (cases "downloadImage env w img") simp
  have b: "snd (fetch_page env w imgURL) \<noteq> Panicked \<and> snd (fetch_page env w imgURL) \<noteq> Exited"
    using fetch_page_pc [of env w imgURL] by auto
  have first: "(Get env w (URL imgURL) = Inl err \<longrightarrow>
      worker_step env (c, w) (Fetching imgURL) =
        Some ((c, w\<lparr>requests := requests w @ [URL imgURL],
                     stdout := stdout w @
                       [''Error fetching '' @ URL imgURL @ '': '' @ message err @ newline]\<rparr>),
              Receiving)) \<and>
   (Get env w (URL imgURL) = Inr body \<longrightarrow>
      worker_step env (c, w) (Fetching imgURL) =
        Some ((c, download_loop env (w\<lparr>requests := requests w @ [URL imgURL]\<rparr>)
                    (snd (parseHTML (tokenizer env) body (URL imgURL) (Depth imgURL)))),
              Sending imgURL (fst (parseHTML (tokenizer env) body (URL imgURL) (Depth imgURL)))))"
    by (simp add: fetch_page_ok fetch_page_err)
  have e: "workers (next_state env startURL (Worker i) s) i = Receiving \<and>
           crawler (next_state env startURL (Worker i) s) = crawler s"
    if "i < MaxWorkers" "workers s i = Fetching imgURL"
      "Get env (world s) (URL imgURL) = Inl err"
  proof -
    have "worker_step env (crawler s, world s) (workers s i) =
            Some ((crawler s, fst (fetch_page env (world s) imgURL)), Receiving)"
      using that by (simp add: fetch_page_err)
    from worker_next [OF that(1) this, of startURL] show ?thesis by simp
  qed
  have f: "workers (run env startURL
         (replicate (length (fst (parseHTML (tokenizer env) body (URL imgURL) (Depth imgURL))) + 2)
            (Worker i)) s) i = Receiving \<and>
      urlChan (crawler (run env startURL
         (replicate (length (fst (parseHTML (tokenizer env) body (URL imgURL) (Depth imgURL))) + 2)
            (Worker i)) s)) =
        urlChan (crawler s) @ map (\<lambda>l. \<lparr>URL = l, Depth = Depth imgURL + 1\<rparr>)
          (fst (parseHTML (tokenizer env) body (URL imgURL) (Depth imgURL))) \<and>
      world (run env startURL
         (replicate (length (fst (parseHTML (tokenizer env) body (URL imgURL) (Depth imgURL))) + 2)
            (Worker i)) s) =
        download_loop env ((world s)\<lparr>requests := requests (world s) @ [URL imgURL]\<rparr>)
          (snd (parseHTML (tokenizer env) body (URL imgURL) (Depth imgURL)))"
    if "i < MaxWorkers" "workers s i = Fetching imgURL"
      "Get env (world s) (URL imgURL) = Inr body" "\<not> closed (crawler s)"
      "length (urlChan (crawler s)) +
         length (fst (parseHTML (tokenizer env) body (URL imgURL) (Depth imgURL))) \<le> ChanCap"
    unfolding fetch_send_receive [OF that] by simp
  have g: "worker_step env (c, w) Receiving =
        Some ((c\<lparr>urlChan := rest\<rparr>, w),
              if Depth item > MaxDepth then Receiving else Locking item)"
    if "urlChan c = item # rest"
    using that by (rule receive_step)
  have h: "worker_step env (c, w) (Sending imgURL []) = Some ((c, w), Receiving)" by simp
  from first a b e f g h download_loop_requests [of env w images] show ?thesis
    by blast
qed

theorem errors_stay_with_their_item_witness:
  "Get page_env empty_world (URL failed_item) = Inl (Err ''unsupported protocol scheme'') \<and>
   worker_step page_env (NewCrawler, empty_world) (Fetching failed_item) =
     Some ((NewCrawler,
            empty_world\<lparr>requests := [''https://example.com/page2''],
              stdout := [''Error fetching https://example.com/page2: unsupported protocol scheme''
                           @ newline]\<rparr>),
           Receiving) \<and>
   Get page_env empty_world (URL page_item) = Inr \<lparr>content = [], read_err = None\<rparr> \<and>
   snd (downloadImage page_env empty_world ''a.png'') = Some (Err ''unsupported protocol scheme'') \<and>
   worker_step page_env (NewCrawler, empty_world) (Fetching page_item) =
     Some ((NewCrawler,
            empty_world\<lparr>requests := [''https://example.com/page1'', ''a.png'', ''a.png''],
              stdout := [''Error downloading a.png: unsupported protocol scheme'' @ newline,
                         ''Error downloading a.png: unsupported protocol scheme'' @ newline]\<rparr>),
           Sending page_item [''https://example.com/page2'']) \<and>
   urlChan (NewCrawler\<lparr>urlChan := [page_item]\<rparr>) = [page_item] \<and>
   worker_step page_env (NewCrawler\<lparr>urlChan := [page_item]\<rparr>, empty_world) Receiving =
     Some ((NewCrawler, empty_world), Locking page_item) \<and>
   (0::nat) < MaxWorkers \<and>
   workers (next_state page_env startURL0 (Worker 0) (fetching_at failed_item)) 0 = Receiving \<and>
   workers (run page_env startURL0 (replicate 3 (Worker 0)) (fetching_at page_item)) 0 =
     Receiving \<and>
   urlChan (crawler (run page_env startURL0 (replicate 3 (Worker 0)) (fetching_at page_item))) =
     [\<lparr>URL = ''https://example.com/page2'', Depth = 4\<rparr>] \<and>
   stdout (world (run page_env startURL0 (replicate 3 (Worker 0)) (fetching_at page_item))) =
     [''Error downloading a.png: unsupported protocol scheme'' @ newline,
      ''Error downloading a.png: unsupported protocol scheme'' @ newline]"
proof -
  let ?body = "\<lparr>content = [], read_err = None\<rparr> :: Body"
  let ?e = "Err ''unsupported protocol scheme''"
  have h: "Get page_env empty_world (URL failed_item) = Inl ?e"
    "Get page_env empty_world (URL page_item) = Inr ?body"
    "snd (downloadImage page_env empty_world ''a.png'') = Some ?e"
    "urlChan (NewCrawler\<lparr>urlChan := [page_item]\<rparr>) = page_item # []"
    by (simp_all add: page_env_def failed_item_def page_item_def downloadImage_def)
  have i: "(0::nat) < MaxWorkers" by (simp add: MaxWorkers_def)
  have h5: "(0::nat) < MaxWorkers \<and> workers (fetching_at failed_item) 0 = Fetching failed_item \<and>
            Get page_env (world (fetching_at failed_item)) (URL failed_item) = Inl ?e"
    by (simp add: fetching_at_def page_env_def failed_item_def MaxWorkers_def)
  have h6: "(0::nat) < MaxWorkers \<and> workers (fetching_at page_item) 0 = Fetching page_item \<and>
            Get page_env (world (fetching_at page_item)) (URL page_item) = Inr ?body \<and>
            \<not> closed (crawler (fetching_at page_item)) \<and>
            length (urlChan (crawler (fetching_at page_item))) +
              length (fst (parseHTML (tokenizer page_env) ?body (URL page_item) (Depth page_item)))
              \<le> ChanCap"
    unfolding page_parse
    by (simp add: fetching_at_def page_env_def page_item_def MaxWorkers_def NewCrawler_def
          ChanCap_def)
  note T1 = errors_stay_with_their_item [where env = page_env and w = empty_world
      and imgURL = failed_item and err = ?e and c = NewCrawler and body = ?body
      and img = "''a.png''" and derr = ?e and images = "[]" and item = page_item
      and rest = "[]" and i = 0 and s = "fetching_at failed_item" and startURL = startURL0]
  note T2 = errors_stay_with_their_item [where env = page_env and w = empty_world
      and imgURL = page_item and err = ?e and c = "NewCrawler\<lparr>urlChan := [page_item]\<rparr>"
      and body = ?body
      and img = "''a.png''" and derr = ?e and images = "[]" and item = page_item
      and rest = "[]" and i = 0 and s = "fetching_at page_item" and startURL = startURL0]
  note T3 = errors_stay_with_their_item [where env = page_env and w = empty_world
      and imgURL = page_item and err = ?e and c = NewCrawler and body = ?body
      and img = "''a.png''" and derr = ?e and images = "[]" and item = page_item
      and rest = "[]" and i = 0 and s = "fetching_at page_item" and startURL = startURL0]
  note c1 = T1 [THEN conjunct1, THEN mp, OF h(1)]
  note c2 = T3 [THEN conjunct2, THEN conjunct1, THEN mp, OF h(2)]
  note c8 = T2 [THEN conjunct2, THEN conjunct2, THEN conjunct2, THEN conjunct2, THEN conjunct2,
      THEN conjunct2, THEN conjunct2, THEN conjunct1, THEN mp, OF h(4)]
  note c9 = T1 [THEN conjunct2, THEN conjunct2, THEN conjunct2, THEN conjunct2, THEN conjunct2,
      THEN conjunct2, THEN conjunct2, THEN conjunct2, THEN conjunct1, THEN mp, OF h5]
  note c10 = T3 [THEN conjunct2, THEN conjunct2, THEN conjunct2, THEN conjunct2, THEN conjunct2,
      THEN conjunct2, THEN conjunct2, THEN conjunct2, THEN conjunct2, THEN mp, OF h6]
  have dl: "download_loop page_env (empty_world\<lparr>requests := [''https://example.com/page1'']\<rparr>)
              [''a.png'', ''a.png''] =
            empty_world\<lparr>requests := [''https://example.com/page1'', ''a.png'', ''a.png''],
              stdout := [''Error downloading a.png: unsupported protocol scheme'' @ newline,
                         ''Error downloading a.png: unsupported protocol scheme'' @ newline]\<rparr>"
    by (simp add: downloadImage_def page_env_def empty_world_def)
  have w0: "world (fetching_at page_item) = empty_world" "requests empty_world = []"
    "urlChan (crawler (fetching_at page_item)) = []"
    by (simp_all add: fetching_at_def empty_world_def NewCrawler_def)
  have n3: "length (fst (parseHTML (tokenizer page_env) ?body (URL page_item)
                (Depth page_item))) + 2 = 3"
    by (simp add: page_parse)
  have dl': "download_loop page_env
               (empty_world\<lparr>requests := requests empty_world @ [URL page_item]\<rparr>)
               [''a.png'', ''a.png''] =
            empty_world\<lparr>requests := [''https://example.com/page1'', ''a.png'', ''a.png''],
              stdout := [''Error downloading a.png: unsupported protocol scheme'' @ newline,
                         ''Error downloading a.png: unsupported protocol scheme'' @ newline]\<rparr>"
    using dl by (simp add: empty_world_def page_item_def)
  note c10' = c10 [unfolded n3 page_parse fst_conv snd_conv w0(1) dl']
  have first: "worker_step page_env (NewCrawler, empty_world) (Fetching failed_item) =
     Some ((NewCrawler,
            empty_world\<lparr>requests := [''https://example.com/page2''],
              stdout := [''Error fetching https://example.com/page2: unsupported protocol scheme''
                           @ newline]\<rparr>),
           Receiving)"
    using c1 by (simp add: failed_item_def empty_world_def)
  have second: "worker_step page_env (NewCrawler, empty_world) (Fetching page_item) =
     Some ((NewCrawler,
            empty_world\<lparr>requests := [''https://example.com/page1'', ''a.png'', ''a.png''],
              stdout := [''Error downloading a.png: unsupported protocol scheme'' @ newline,
                         ''Error downloading a.png: unsupported protocol scheme'' @ newline]\<rparr>),
           Sending page_item [''https://example.com/page2''])"
    using c2 dl by (simp add: page_parse page_item_def empty_world_def)
  have third: "worker_step page_env (NewCrawler\<lparr>urlChan := [page_item]\<rparr>, empty_world) Receiving =
     Some ((NewCrawler, empty_world), Locking page_item)"
    using c8 by (simp add: page_item_def MaxDepth_def NewCrawler_def)
  have fourth: "workers (next_state page_env startURL0 (Worker 0) (fetching_at failed_item)) 0 =
     Receiving"
    using c9 by simp
  have fifth: "workers (run page_env startURL0 (replicate 3 (Worker 0)) (fetching_at page_item)) 0 =
       Receiving"
    "urlChan (crawler (run page_env startURL0 (replicate 3 (Worker 0)) (fetching_at page_item))) =
       [\<lparr>URL = ''https://example.com/page2'', Depth = 4\<rparr>]"
    "stdout (world (run page_env startURL0 (replicate 3 (Worker 0)) (fetching_at page_item))) =
       [''Error downloading a.png: unsupported protocol scheme'' @ newline,
        ''Error downloading a.png: unsupported protocol scheme'' @ newline]"
    using c10'
    by (simp_all add: page_item_def empty_world_def eval_nat_numeral fetching_at_def
          NewCrawler_def)
  from h i first second third fourth fifth show ?thesis by simp
qed

subsection \<open>The deadlock at the end of a crawl\<close>

text \<open>
  A state in which \<open>Start\<close> waits, the channel is empty and open and every worker is at
  the receive has no successor. The run on the site without links or images reaches such a
  state after its one page has been processed: one request has been made, and every
  goroutine is blocked for good.
\<close>

lemma quiescent_stuck:
  assumes "mainpc s = Waiting" and "wg (crawler s) \<noteq> 0" and "urlChan (crawler s) = []"
    and "\<not> closed (crawler s)" and "\<forall>i<MaxWorkers. workers s i = Receiving"
  shows "sys_step env u a s = None"
  using assms by (cases a) (simp_all add: Start_step_def)

lemma Start_deadlock_example:
  "mainpc (run quiet_env startURL0 (replicate 12 Main @ replicate 7 (Worker 0))
             (init empty_world)) = Waiting \<and>
   requests (world (run quiet_env startURL0 (replicate 12 Main @ replicate 7 (Worker 0))
             (init empty_world))) = [startURL0] \<and>
   \<not> enabled quiet_env startURL0 a
       (run quiet_env startURL0 (replicate 12 Main @ replicate 7 (Worker 0))
          (init empty_world))"
proof -
  let ?s = "run quiet_env startURL0 (replicate 12 Main @ replicate 7 (Worker 0))
              (init empty_world)"
  have s: "?s =
     \<lparr>crawler = \<lparr>visited = [startURL0 \<mapsto> True], visitedLock = False, wg = 10,
        urlChan = [], closed = False\<rparr>,
      world = empty_world\<lparr>requests := [startURL0]\<rparr>,
      workers = (\<lambda>_. NotStarted)(0 := Receiving, 1 := Receiving, 2 := Receiving,
        3 := Receiving, 4 := Receiving, 5 := Receiving, 6 := Receiving, 7 := Receiving,
        8 := Receiving, 9 := Receiving),
      mainpc = Waiting\<rparr>"
    by (simp add: eval_simps eval_nat_numeral fun_upd_twist)
  have "\<forall>i<MaxWorkers. workers ?s i = Receiving"
    unfolding s by (auto simp: MaxWorkers_def)
  then have "sys_step quiet_env startURL0 a ?s = None"
    by (intro quiescent_stuck) (simp_all add: s)
  moreover have "mainpc ?s = Waiting" "requests (world ?s) = [startURL0]"
    by (simp_all add: s)
  ultimately show ?thesis unfolding enabled_def by simp
qed

end
